theory Spec2Isabelle
  imports Complex_Main "HOL-Library.Char_ord" "HOL-Library.List_Lexorder"
    "HOL-Library.Multiset"
begin

section \<open>Python string methods\<close>

text \<open>
  Text cells of the workbook are Python strings. The scripts call \<^verbatim>\<open>lower\<close>,
  \<^verbatim>\<open>strip\<close> and \<^verbatim>\<open>title\<close> on them. Strings are modelled as lists of
  8-bit characters; case mapping and the whitespace test act on the ASCII range and leave
  every other character as it is.
\<close>

definition isspace :: "char \<Rightarrow> bool" where
  "isspace c = ((CHR 0x09 \<le> c \<and> c \<le> CHR 0x0D) \<or> (CHR 0x1C \<le> c \<and> c \<le> CHR 0x20))"

definition isupper :: "char \<Rightarrow> bool" where
  "isupper c = (CHR ''A'' \<le> c \<and> c \<le> CHR ''Z'')"

definition islower :: "char \<Rightarrow> bool" where
  "islower c = (CHR ''a'' \<le> c \<and> c \<le> CHR ''z'')"

definition lower_char :: "char \<Rightarrow> char" where
  "lower_char c =
     (if isupper c
      then (case c of Char b0 b1 b2 b3 b4 b5 b6 b7 \<Rightarrow> Char b0 b1 b2 b3 b4 True b6 b7)
      else c)"

definition upper_char :: "char \<Rightarrow> char" where
  "upper_char c =
     (if islower c
      then (case c of Char b0 b1 b2 b3 b4 b5 b6 b7 \<Rightarrow> Char b0 b1 b2 b3 b4 False b6 b7)
      else c)"

definition lower :: "string \<Rightarrow> string" where
  "lower s = map lower_char s"

definition strip :: "string \<Rightarrow> string" where
  "strip s = rev (dropWhile isspace (rev (dropWhile isspace s)))"

text \<open>
  \<^verbatim>\<open>str.title\<close>: a cased character is upper-cased when the character before it is not
  cased (or there is none) and lower-cased otherwise.
\<close>

fun title_from :: "bool \<Rightarrow> string \<Rightarrow> string" where
  "title_from prev [] = []"
| "title_from prev (c # cs) =
     (if prev then lower_char c else upper_char c) # title_from (isupper c \<or> islower c) cs"

definition title :: "string \<Rightarrow> string" where
  "title s = title_from False s"


section \<open>Rows of the Sales sheet\<close>

text \<open>
  A cell read from the workbook is either empty (pandas \<^verbatim>\<open>NaN\<close>/\<^verbatim>\<open>NaT\<close>, here
  \<open>None\<close>) or holds a value. Text columns hold strings. Amounts are whole numbers
  (minor currency units). An Order Date that
  \<^verbatim>\<open>pd.to_datetime(..., errors='coerce')\<close> could not parse is \<open>None\<close>.
\<close>

record date =
  year :: nat
  month :: nat
  day :: nat

record row =
  order_id :: "string option"
  order_date :: "date option"
  item_total :: "int option"
  quantity :: "int option"
  region :: "string option"
  school_type :: "string option"
  level_type :: "string option"
  item_type :: "string option"
  school_match :: "string option"
  trust_match :: "string option"

text \<open>The text columns that the scripts select by label.\<close>

datatype column = Region | School_Type | Type | Item_Type | School_Match | Trust_Match

fun cell :: "column \<Rightarrow> row \<Rightarrow> string option" where
  "cell Region r = region r"
| "cell School_Type r = school_type r"
| "cell Type r = level_type r"
| "cell Item_Type r = item_type r"
| "cell School_Match r = school_match r"
| "cell Trust_Match r = trust_match r"

definition col :: "column \<Rightarrow> row list \<Rightarrow> string option list" where
  "col c df = map (cell c) df"


section \<open>The pandas operations the scripts use\<close>

text \<open>A Series is the list of its cells, in row order.\<close>

definition str_lower :: "string option list \<Rightarrow> string option list" where
  "str_lower s = map (map_option lower) s"

definition str_strip :: "string option list \<Rightarrow> string option list" where
  "str_strip s = map (map_option strip) s"

definition str_title :: "string option list \<Rightarrow> string option list" where
  "str_title s = map (map_option title) s"

text \<open>\<^verbatim>\<open>astype(str)\<close> turns an empty cell into the string \<^verbatim>\<open>nan\<close>.\<close>

definition astype_str :: "string option list \<Rightarrow> string option list" where
  "astype_str s = map (\<lambda>c. Some (case c of None \<Rightarrow> ''nan'' | Some v \<Rightarrow> v)) s"

definition notna :: "'a option list \<Rightarrow> bool list" where
  "notna s = map (\<lambda>c. c \<noteq> None) s"

text \<open>
  Comparison of a Series with a scalar, cell by cell: an empty cell is not equal to
  anything, so \<^verbatim>\<open>!=\<close> is true on it and \<^verbatim>\<open>==\<close> is false.
\<close>

definition ne :: "string option list \<Rightarrow> string \<Rightarrow> bool list" where
  "ne s v = map (\<lambda>c. c \<noteq> Some v) s"

definition eq :: "string option list \<Rightarrow> string \<Rightarrow> bool list" where
  "eq s v = map (\<lambda>c. c = Some v) s"

definition mask_and :: "bool list \<Rightarrow> bool list \<Rightarrow> bool list" where
  "mask_and a b = map2 (\<and>) a b"

text \<open>Boolean indexing \<^verbatim>\<open>df[mask]\<close>: a new table with the rows whose mask is true.\<close>

definition getitem :: "'a list \<Rightarrow> bool list \<Rightarrow> 'a list" where
  "getitem df bs = map fst (filter snd (zip df bs))"

definition dropna :: "'a option list \<Rightarrow> 'a list" where
  "dropna s = concat (map (\<lambda>c. case c of None \<Rightarrow> [] | Some v \<Rightarrow> [v]) s)"

text \<open>
  \<^verbatim>\<open>read_excel\<close> gives a text column the \<^verbatim>\<open>object\<close> dtype when the sheet has no
  rows or the column holds a text cell, and the \<^verbatim>\<open>float64\<close> dtype when the sheet has
  rows and every cell of the column is empty. A table selected from the sheet by boolean
  indexing keeps the dtypes of the sheet. The \<^verbatim>\<open>.str\<close> accessor raises
  \<^verbatim>\<open>AttributeError\<close> on a column that has not the \<^verbatim>\<open>object\<close> dtype; after
  \<^verbatim>\<open>astype(str)\<close> every column has it.
\<close>

datatype error = AttributeError | NaT_range | KeyError

definition object_dtype :: "column \<Rightarrow> row list \<Rightarrow> bool" where
  "object_dtype c sales = (sales = [] \<or> dropna (col c sales) \<noteq> [])"

definition str_accessor :: "bool \<Rightarrow> string option list \<Rightarrow> error + string option list" where
  "str_accessor obj s = (if obj then Inr s else Inl AttributeError)"

text \<open>
  \<^verbatim>\<open>sum\<close> skips empty cells; the sum of no cells is 0. The sum is the sum of whole
  numbers. It is the sum of the code, in \<^verbatim>\<open>int64\<close> as in \<^verbatim>\<open>float64\<close> and for
  every order of the additions, as long as the absolute values of the cells of the column
  add up to at most \<open>2 ^ 53\<close>; beyond that the sum of the code wraps around or is
  rounded, which this sum does not follow. Statements that rest on the arithmetic of sums
  carry that bound.
\<close>

definition sum_skipna :: "int option list \<Rightarrow> int" where
  "sum_skipna s = sum_list (dropna s)"

definition exact_amounts :: "row list \<Rightarrow> bool" where
  "exact_amounts sales = (sum_list (map abs (dropna (map item_total sales))) \<le> 2 ^ 53)"

text \<open>\<^verbatim>\<open>unique\<close> keeps the first occurrence of each value, in order of appearance.\<close>

definition unique :: "'a list \<Rightarrow> 'a list" where
  "unique xs = rev (remdups (rev xs))"

text \<open>\<^verbatim>\<open>nunique\<close> counts the distinct non-empty values.\<close>

definition nunique :: "'a option list \<Rightarrow> nat" where
  "nunique s = length (unique (dropna s))"

text \<open>
  \<^verbatim>\<open>df.groupby(key)[value]\<close> with the defaults \<^verbatim>\<open>sort=True\<close> and
  \<^verbatim>\<open>dropna=True\<close>: one group per distinct non-empty key, the groups in ascending
  order of the key, each with the value cells of its rows in row order.
\<close>

definition groupby :: "string option list \<Rightarrow> 'a list \<Rightarrow> (string \<times> 'a list) list" where
  "groupby keys vals =
     map (\<lambda>k. (k, map snd (filter (\<lambda>p. fst p = Some k) (zip keys vals))))
       (sort (unique (dropna keys)))"

definition groupby_sum :: "string option list \<Rightarrow> int option list \<Rightarrow> (string \<times> int) list" where
  "groupby_sum keys vals = map (\<lambda>(k, g). (k, sum_skipna g)) (groupby keys vals)"

definition groupby_nunique :: "string option list \<Rightarrow> 'a option list \<Rightarrow> (string \<times> nat) list" where
  "groupby_nunique keys vals = map (\<lambda>(k, g). (k, nunique g)) (groupby keys vals)"

text \<open>
  \<^verbatim>\<open>sort_values(ascending=False)\<close> on a Series of sums sorts with numpy's quicksort,
  which is not stable. The sorting routine is a parameter of the model. All that is assumed
  of it is that it rearranges the entries of the Series into descending order of the sums;
  where it puts entries with equal sums is left open.
\<close>

type_synonym sorter = "(string \<times> int) list \<Rightarrow> (string \<times> int) list"

definition descending :: "('k \<times> int) list \<Rightarrow> bool" where
  "descending s = sorted_wrt (\<lambda>p q. snd q \<le> snd p) s"

definition sorts_descending :: "sorter \<Rightarrow> bool" where
  "sorts_descending quicksort = (\<forall>s. mset (quicksort s) = mset s \<and> descending (quicksort s))"

definition sort_values_desc :: "sorter \<Rightarrow> (string \<times> int) list \<Rightarrow> (string \<times> int) list" where
  "sort_values_desc quicksort s = quicksort s"

text \<open>
  One such routine: sorting by insertion, which leaves entries with equal sums in the
  order they have in the Series.
\<close>

definition insertion_desc :: sorter where
  "insertion_desc s = sort_key (\<lambda>p. - snd p) s"

definition head :: "nat \<Rightarrow> 'a list \<Rightarrow> 'a list" where
  "head n s = take n s"


section \<open>The education subset\<close>

text \<open>
  \<^verbatim>\<open>my_dashboard1.py\<close>, line 81. The line uses \<^verbatim>\<open>.str\<close> on the School Match
  column of the sheet as it was read.
\<close>

definition edu_df_d1 :: "row list \<Rightarrow> error + row list" where
  "edu_df_d1 sales =
     (case str_accessor (object_dtype School_Match sales) (col School_Match sales) of
        Inl e \<Rightarrow> Inl e
      | Inr s \<Rightarrow> Inr (getitem sales (ne (str_lower s) ''no match'')))"

text \<open>The second script (\<^verbatim>\<open>my_dashboard .py\<close>), line 85.\<close>

definition edu_df_md :: "row list \<Rightarrow> row list" where
  "edu_df_md sales =
     getitem sales
       (mask_and (notna (col School_Match sales))
          (ne (str_strip (astype_str (col School_Match sales))) ''''))"

text \<open>
  The membership rule as the specification words it: the School Match, trimmed, is
  non-empty and differs, ignoring case, from the sentinel.
\<close>

definition spec_edu_member :: "row \<Rightarrow> bool" where
  "spec_edu_member r =
     (case school_match r of
        None \<Rightarrow> False
      | Some s \<Rightarrow> strip s \<noteq> '''' \<and> lower (strip s) \<noteq> ''no match'')"


section \<open>Key figures\<close>

definition total_revenue :: "row list \<Rightarrow> int" where
  "total_revenue sales = sum_skipna (map item_total sales)"

definition edu_revenue :: "row list \<Rightarrow> int" where
  "edu_revenue edu = sum_skipna (map item_total edu)"

definition total_units :: "row list \<Rightarrow> int" where
  "total_units sales = sum_skipna (map quantity sales)"

definition schools_reached :: "row list \<Rightarrow> nat" where
  "schools_reached edu = nunique (col School_Match edu)"

definition repeat_orders :: "row list \<Rightarrow> (string \<times> nat) list" where
  "repeat_orders edu = groupby_nunique (col School_Match edu) (map order_id edu)"

text \<open>
  The result of dividing a numpy integer by a Python integer: a number, an infinity or
  NaN. The division does not raise when the divisor is 0.
\<close>

datatype npfloat = Fin rat | PosInf | NegInf | NaN

definition np_divide :: "int \<Rightarrow> int \<Rightarrow> npfloat" where
  "np_divide a b =
     (if b = 0 then (if a = 0 then NaN else if 0 < a then PosInf else NegInf)
      else Fin (of_int a / of_int b))"

fun np_times :: "npfloat \<Rightarrow> int \<Rightarrow> npfloat" where
  "np_times (Fin x) k = Fin (x * of_int k)"
| "np_times NaN k = NaN"
| "np_times PosInf k = (if k = 0 then NaN else if 0 < k then PosInf else NegInf)"
| "np_times NegInf k = (if k = 0 then NaN else if 0 < k then NegInf else PosInf)"

definition repeat_count :: "row list \<Rightarrow> nat" where
  "repeat_count edu = length (filter (\<lambda>p. 1 < snd p) (repeat_orders edu))"

text \<open>\<^verbatim>\<open>my_dashboard1.py\<close>, line 116.\<close>

definition repeat_order_rate_d1 :: "row list \<Rightarrow> npfloat" where
  "repeat_order_rate_d1 edu =
     (if schools_reached edu \<noteq> 0
      then np_times (np_divide (int (repeat_count edu)) (int (schools_reached edu))) 100
      else Fin 0)"

text \<open>The second script, line 95.\<close>

definition repeat_order_rate_md :: "row list \<Rightarrow> npfloat" where
  "repeat_order_rate_md edu =
     np_times (np_divide (int (repeat_count edu)) (int (schools_reached edu))) 100"


section \<open>Trust-matched sales\<close>

text \<open>\<^verbatim>\<open>my_dashboard1.py\<close>, lines 91 to 94: over all sales.\<close>

definition trust_purchases :: "row list \<Rightarrow> row list" where
  "trust_purchases sales =
     getitem sales (eq (str_lower (str_strip (astype_str (col Trust_Match sales)))) ''trust'')"

definition num_trust_purchases :: "row list \<Rightarrow> nat" where
  "num_trust_purchases sales = length (trust_purchases sales)"

text \<open>
  The second script, line 100: over the education subset. The line uses \<^verbatim>\<open>.str\<close> on
  the Trust Match column of the subset, which has the dtype of that column of the sheet.
\<close>

definition total_trust_matched_sales :: "row list \<Rightarrow> error + nat" where
  "total_trust_matched_sales sales =
     (case str_accessor (object_dtype Trust_Match sales) (col Trust_Match (edu_df_md sales)) of
        Inl e \<Rightarrow> Inl e
      | Inr s \<Rightarrow>
          Inr (length (getitem (edu_df_md sales) (eq (str_lower (str_strip s)) ''trust''))))"

text \<open>A sale is trust-matched when its Trust Match, trimmed and lower-cased, is the marker.\<close>

definition is_trust :: "row \<Rightarrow> bool" where
  "is_trust r = (case trust_match r of None \<Rightarrow> False | Some s \<Rightarrow> lower (strip s) = ''trust'')"


section \<open>Top schools by revenue\<close>

definition top_schools :: "sorter \<Rightarrow> row list \<Rightarrow> (string \<times> int) list" where
  "top_schools quicksort edu =
     head 10
       (sort_values_desc quicksort (groupby_sum (col School_Match edu) (map item_total edu)))"


section \<open>Monthly revenue\<close>

text \<open>
  \<^verbatim>\<open>df.resample('MS', on='Order Date')['Item Total'].sum()\<close>. The buckets are the
  calendar months from the month of the earliest date to the month of the latest one, each
  labelled with its first day; a month without rows has the sum 0. Rows without a date fall
  into no bucket. On a table with rows but no date at all the bucket range cannot be built
  and pandas raises; on an empty table the Series is empty.
\<close>



definition month_ord :: "date \<Rightarrow> nat" where
  "month_ord d = 12 * year d + (month d - 1)"

definition month_start :: "nat \<Rightarrow> date" where
  "month_start n = \<lparr>year = n div 12, month = n mod 12 + 1, day = 1\<rparr>"

definition bucket :: "date option list \<Rightarrow> int option list \<Rightarrow> nat \<Rightarrow> int" where
  "bucket dates vals n =
     sum_skipna (map snd (filter (\<lambda>p. map_option month_ord (fst p) = Some n) (zip dates vals)))"

definition resample_MS_sum ::
  "date option list \<Rightarrow> int option list \<Rightarrow> error + (date \<times> int) list" where
  "resample_MS_sum dates vals =
     (if dates = [] then Inr []
      else (case map month_ord (dropna dates) of
              [] \<Rightarrow> Inl NaT_range
            | n # ns \<Rightarrow>
                Inr (map (\<lambda>k. (month_start k, bucket dates vals k))
                       [fold min ns n ..< Suc (fold max ns n)])))"

definition monthly_sales :: "row list \<Rightarrow> error + (date \<times> int) list" where
  "monthly_sales sales = resample_MS_sum (map order_date sales) (map item_total sales)"

definition monthly_edu :: "row list \<Rightarrow> error + (date \<times> int) list" where
  "monthly_edu edu = resample_MS_sum (map order_date edu) (map item_total edu)"

definition series_total :: "('k \<times> int) list \<Rightarrow> int" where
  "series_total s = sum_list (map snd s)"


section \<open>The scripts as state transformers\<close>

text \<open>
  Both scripts keep the tables in module-level variables and assign to them. The state
  holds the Sales table, the column \<^verbatim>\<open>Region_clean\<close> that the second script adds to
  it (absent until then), and the education subset.
\<close>

record state =
  sales_df :: "row list"
  region_clean :: "string option list option"
  edu_df :: "row list"

definition base_columns :: "string list" where
  "base_columns =
     [''Order ID'', ''Order Date'', ''Item Total'', ''Quantity'', ''Region'', ''School Type'',
      ''Type'', ''Item Type'', ''School Match'', ''Trust Match'']"

definition sales_columns :: "state \<Rightarrow> string list" where
  "sales_columns s =
     base_columns @ (case region_clean s of None \<Rightarrow> [] | Some _ \<Rightarrow> [''Region_clean''])"

text \<open>\<^verbatim>\<open>my_dashboard1.py\<close>: the state after line 81, and the assignment of line 167.\<close>

definition load_d1 :: "row list \<Rightarrow> error + state" where
  "load_d1 sales =
     (case edu_df_d1 sales of
        Inl e \<Rightarrow> Inl e
      | Inr edu \<Rightarrow> Inr \<lparr>sales_df = sales, region_clean = None, edu_df = edu\<rparr>)"

definition set_region :: "row list \<Rightarrow> string option list \<Rightarrow> row list" where
  "set_region df cs = map2 (\<lambda>r c. r\<lparr>region := c\<rparr>) df cs"

definition clean_region_d1 :: "state \<Rightarrow> state" where
  "clean_region_d1 s =
     s\<lparr>edu_df := set_region (edu_df s)
                   (str_title (str_strip (astype_str (col Region (edu_df s)))))\<rparr>"

definition run_d1 :: "row list \<Rightarrow> error + state" where
  "run_d1 sales =
     (case load_d1 sales of Inl e \<Rightarrow> Inl e | Inr s \<Rightarrow> Inr (clean_region_d1 s))"

text \<open>The second script: the state after line 85, and the assignment of line 147.\<close>

definition load_md :: "row list \<Rightarrow> state" where
  "load_md sales = \<lparr>sales_df = sales, region_clean = None, edu_df = edu_df_md sales\<rparr>"

definition clean_region_md :: "state \<Rightarrow> state" where
  "clean_region_md s =
     s\<lparr>region_clean := Some (str_strip (astype_str (col Region (sales_df s))))\<rparr>"

definition run_md :: "row list \<Rightarrow> state" where
  "run_md sales = clean_region_md (load_md sales)"


section \<open>Regional revenue\<close>

text \<open>The second script, line 150: all sales, grouped by \<^verbatim>\<open>Region_clean\<close>.\<close>

definition region_sales_all :: "sorter \<Rightarrow> state \<Rightarrow> error + (string \<times> int) list" where
  "region_sales_all quicksort s =
     (case region_clean s of
        None \<Rightarrow> Inl KeyError
      | Some rc \<Rightarrow>
          Inr (sort_values_desc quicksort (groupby_sum rc (map item_total (sales_df s)))))"

text \<open>
  \<^verbatim>\<open>my_dashboard1.py\<close>, lines 168 and 169: the education subset without the rows
  whose cleaned Region is empty or \<^verbatim>\<open>nan\<close>, grouped by Region.
\<close>

definition valid_regions_df :: "state \<Rightarrow> row list" where
  "valid_regions_df s =
     getitem (edu_df s)
       (mask_and (ne (col Region (edu_df s)) '''')
          (ne (str_lower (col Region (edu_df s))) ''nan''))"

definition region_sales :: "sorter \<Rightarrow> state \<Rightarrow> (string \<times> int) list" where
  "region_sales quicksort s =
     sort_values_desc quicksort
       (groupby_sum (col Region (valid_regions_df s)) (map item_total (valid_regions_df s)))"


section \<open>Filters\<close>

text \<open>
  One step of the sidebar: the selection \<^verbatim>\<open>All\<close> leaves the table as it is, any other
  selection keeps the rows whose cell equals it.
\<close>

definition apply_filter :: "column \<times> string \<Rightarrow> row list \<Rightarrow> row list" where
  "apply_filter cv df =
     (if snd cv \<noteq> ''All'' then getitem df (eq (col (fst cv) df) (snd cv)) else df)"

text \<open>The second script, lines 386 to 428, on a copy of the Sales table.\<close>

definition filtered_df_md :: "string \<Rightarrow> string \<Rightarrow> string \<Rightarrow> string \<Rightarrow> row list \<Rightarrow> row list" where
  "filtered_df_md region_filter school_type_filter type_filter trust_filter sales =
     apply_filter (Trust_Match, trust_filter)
       (apply_filter (Type, type_filter)
          (apply_filter (School_Type, school_type_filter)
             (apply_filter (Region, region_filter) sales)))"

text \<open>\<^verbatim>\<open>my_dashboard1.py\<close>, lines 334 to 338, on a copy of the education subset.\<close>

definition filtered_df_d1 :: "string \<Rightarrow> string \<Rightarrow> row list \<Rightarrow> row list" where
  "filtered_df_d1 region_filter school_type_filter edu =
     apply_filter (School_Type, school_type_filter) (apply_filter (Region, region_filter) edu)"

definition filtered_sales_total :: "row list \<Rightarrow> int" where
  "filtered_sales_total filtered = sum_skipna (map item_total filtered)"

definition filtered_sales_count :: "row list \<Rightarrow> nat" where
  "filtered_sales_count filtered = length filtered"

text \<open>A row passes a selection when the selection is \<^verbatim>\<open>All\<close> or equals its cell.\<close>

definition passes :: "column \<times> string \<Rightarrow> row \<Rightarrow> bool" where
  "passes cv r = (snd cv = ''All'' \<or> cell (fst cv) r = Some (snd cv))"


section \<open>Notions used in the statements\<close>

text \<open>
  The text that \<^verbatim>\<open>astype(str).str.strip()\<close> makes of a Region cell: an empty cell
  becomes \<^verbatim>\<open>nan\<close>, any other is trimmed.
\<close>

definition clean_text :: "string option \<Rightarrow> string" where
  "clean_text c = strip (case c of None \<Rightarrow> ''nan'' | Some s \<Rightarrow> s)"

text \<open>
  The Region of a row of the education subset after the assignment of line 167 of
  \<^verbatim>\<open>my_dashboard1.py\<close>, and the test of line 168 on it.
\<close>

definition region_key_d1 :: "row \<Rightarrow> string" where
  "region_key_d1 r = title (clean_text (region r))"

definition valid_region :: "row \<Rightarrow> bool" where
  "valid_region r = (region_key_d1 r \<noteq> '''' \<and> lower (region_key_d1 r) \<noteq> ''nan'')"

text \<open>The rule of line 81 of \<^verbatim>\<open>my_dashboard1.py\<close> on a single row.\<close>

definition kept_d1 :: "row \<Rightarrow> bool" where
  "kept_d1 r = (case school_match r of None \<Rightarrow> True | Some s \<Rightarrow> lower s \<noteq> ''no match'')"


section \<open>Example tables\<close>

definition blank_row :: row where
  "blank_row =
     \<lparr>order_id = None, order_date = None, item_total = None, quantity = None, region = None,
      school_type = None, level_type = None, item_type = None, school_match = None,
      trust_match = None\<rparr>"

text \<open>The three-row scenario of the specification.\<close>

definition scenario :: "row list" where
  "scenario =
     [blank_row\<lparr>school_match := Some ''Oak Primary'', item_total := Some 100,
                region := Some '' london ''\<rparr>,
      blank_row\<lparr>school_match := Some '''', item_total := Some 50, region := Some ''London''\<rparr>,
      blank_row\<lparr>school_match := Some ''no match'', item_total := Some 25,
                region := Some ''Leeds''\<rparr>]"

text \<open>The Trust Match column of the specification's example.\<close>

definition trust_column :: "string option list" where
  "trust_column = [Some ''Trust'', Some '' trust '', Some ''TRUST'', Some '''', Some ''Not Trust'']"

text \<open>Five sales with that Trust Match column and a given School Match.\<close>

definition trust_table :: "string option \<Rightarrow> row list" where
  "trust_table sm = map (\<lambda>c. blank_row\<lparr>school_match := sm, trust_match := c\<rparr>) trust_column"

text \<open>A sale to a school and a refund of a sale outside the education subset.\<close>

definition refund_table :: "row list" where
  "refund_table =
     [blank_row\<lparr>school_match := Some ''Oak Primary'', item_total := Some 100\<rparr>,
      blank_row\<lparr>school_match := Some ''no match'', item_total := Some (- 50)\<rparr>]"

definition refund_table_md :: "row list" where
  "refund_table_md =
     [blank_row\<lparr>school_match := Some ''Oak Primary'', item_total := Some 100\<rparr>,
      blank_row\<lparr>school_match := None, item_total := Some (- 50)\<rparr>]"

text \<open>One sale that matches no school: the School Match column holds no text.\<close>

definition no_school_table :: "row list" where
  "no_school_table = [blank_row\<lparr>order_id := Some ''A1'', item_total := Some 100\<rparr>]"

text \<open>A sale marked with the sentinel and a sale without a School Match.\<close>

definition unmatched_table :: "row list" where
  "unmatched_table =
     [blank_row\<lparr>order_id := Some ''A1'', item_total := Some 100,
                school_match := Some ''no match''\<rparr>,
      blank_row\<lparr>order_id := Some ''A2'', item_total := Some 40\<rparr>]"

text \<open>A sale to a school, a sale without a School Match and a sale marked with the sentinel.\<close>

definition segment_table :: "row list" where
  "segment_table =
     [blank_row\<lparr>school_match := Some ''Oak Primary'', item_total := Some 100\<rparr>,
      blank_row\<lparr>item_total := Some 50\<rparr>,
      blank_row\<lparr>school_match := Some ''no match'', item_total := Some 25\<rparr>]"

text \<open>A sale to a school, a sale without a School Match and a sale with a blank one.\<close>

definition blank_table :: "row list" where
  "blank_table =
     [blank_row\<lparr>school_match := Some ''Oak Primary'', item_total := Some 100\<rparr>,
      blank_row\<lparr>item_total := Some 7\<rparr>,
      blank_row\<lparr>school_match := Some ''  '', item_total := Some 5\<rparr>]"

text \<open>Two schools with the same revenue; the one seen first has the greater name.\<close>

definition tie_table :: "row list" where
  "tie_table =
     [blank_row\<lparr>school_match := Some ''Birch School'', item_total := Some 100\<rparr>,
      blank_row\<lparr>school_match := Some ''Ash School'', item_total := Some 100\<rparr>]"

text \<open>A dated sale of March 2024 and a sale without a date, both to a school.\<close>

definition undated_table :: "row list" where
  "undated_table =
     [blank_row\<lparr>order_date := Some \<lparr>year = 2024, month = 3, day = 15\<rparr>,
                item_total := Some 100, school_match := Some ''Oak Primary''\<rparr>,
      blank_row\<lparr>item_total := Some 50, school_match := Some ''Oak Primary''\<rparr>]"

text \<open>A sale without a date.\<close>

definition undated_only_table :: "row list" where
  "undated_only_table = [blank_row\<lparr>item_total := Some 50, school_match := Some ''Oak Primary''\<rparr>]"

text \<open>Sales to twelve schools; two of the schools have the same revenue.\<close>

definition sale :: "string \<Rightarrow> int \<Rightarrow> row" where
  "sale school amount = blank_row\<lparr>school_match := Some school, item_total := Some amount\<rparr>"

definition twelve_schools :: "row list" where
  "twelve_schools =
     [sale ''Larch'' 20, sale ''Dale'' 100, sale ''Ash'' 70, sale ''Kapok'' 30,
      sale ''Cedar'' 100, sale ''Birch'' 110, sale ''Ivy'' 50, sale ''Ash'' 50,
      sale ''Elm'' 90, sale ''Juniper'' 40, sale ''Fir'' 80, sale ''Hazel'' 60,
      sale ''Gorse'' 70]"

text \<open>The first day of March 2024.\<close>

definition march :: date where
  "march = \<lparr>year = 2024, month = 3, day = 1\<rparr>"




section \<open>Unfolding rules for evaluation\<close>

lemmas str_defs =
  isspace_def isupper_def islower_def lower_char_def upper_char_def lower_def strip_def title_def

lemmas pd_defs =
  col_def str_lower_def str_strip_def str_title_def astype_str_def notna_def ne_def eq_def
  mask_and_def getitem_def dropna_def sum_skipna_def unique_def nunique_def groupby_def
  groupby_sum_def groupby_nunique_def sort_values_desc_def insertion_desc_def head_def
  object_dtype_def str_accessor_def

lemmas ex_defs =
  scenario_def blank_row_def trust_column_def refund_table_def refund_table_md_def
  trust_table_def no_school_table_def tie_table_def undated_table_def unmatched_table_def
  segment_table_def blank_table_def undated_only_table_def


section \<open>Boolean indexing is filtering\<close>

lemma getitem_map: "getitem df (map p df) = filter p df"
  by (induction df) (simp_all add: getitem_def)

lemma mask_d1:
  "ne (str_lower (col School_Match sales)) ''no match'' = map kept_d1 sales"
  by (simp add: ne_def str_lower_def col_def kept_d1_def split: option.split)

lemma edu_df_d1_runs:
  "object_dtype School_Match sales \<Longrightarrow> edu_df_d1 sales = Inr (filter kept_d1 sales)"
  by (simp add: edu_df_d1_def str_accessor_def mask_d1 getitem_map)

lemma edu_df_d1_raises:
  "\<not> object_dtype School_Match sales \<Longrightarrow> edu_df_d1 sales = Inl AttributeError"
  by (simp add: edu_df_d1_def str_accessor_def)

lemma edu_df_d1_Inr:
  "edu_df_d1 sales = Inr edu \<Longrightarrow> object_dtype School_Match sales \<and> edu = filter kept_d1 sales"
  by (cases "object_dtype School_Match sales") (simp_all add: edu_df_d1_runs edu_df_d1_raises)

lemma edu_df_md_filter:
  "edu_df_md sales =
     filter (\<lambda>r. case school_match r of None \<Rightarrow> False | Some s \<Rightarrow> strip s \<noteq> '''') sales"
proof -
  have "mask_and (notna (col School_Match sales))
          (ne (str_strip (astype_str (col School_Match sales))) '''') =
        map (\<lambda>r. case school_match r of None \<Rightarrow> False | Some s \<Rightarrow> strip s \<noteq> '''') sales"
    by (induction sales)
       (simp_all add: mask_and_def notna_def ne_def str_strip_def astype_str_def col_def
          split: option.split)
  then show ?thesis
    by (simp add: edu_df_md_def getitem_map)
qed

lemma dropna_Nil: "dropna [] = []"
  by (simp add: dropna_def)

lemma dropna_Cons: "dropna (c # cs) = (case c of None \<Rightarrow> [] | Some v \<Rightarrow> [v]) @ dropna cs"
  by (simp add: dropna_def)

lemma dropna_append: "dropna (xs @ ys) = dropna xs @ dropna ys"
  by (simp add: dropna_def)

lemma set_dropna: "set (dropna s) = {v. Some v \<in> set s}"
  by (induction s) (auto simp: dropna_Cons dropna_Nil split: option.splits)

lemma object_dtype_text:
  "r \<in> set sales \<Longrightarrow> cell c r = Some s \<Longrightarrow> object_dtype c sales"
proof -
  assume "r \<in> set sales" and "cell c r = Some s"
  then have "s \<in> set (dropna (col c sales))"
    by (force simp: set_dropna col_def)
  then show ?thesis
    by (auto simp: object_dtype_def)
qed

lemma object_dtype_subset:
  "dropna (col c (filter P sales)) \<noteq> [] \<Longrightarrow> object_dtype c sales"
proof -
  assume "dropna (col c (filter P sales)) \<noteq> []"
  then obtain s where "s \<in> set (dropna (col c (filter P sales)))"
    by (cases "dropna (col c (filter P sales))") auto
  then obtain r where "r \<in> set sales" "cell c r = Some s"
    by (auto simp: set_dropna col_def)
  then show ?thesis
    by (rule object_dtype_text)
qed



section \<open>Whitespace and the sentinel\<close>

lemma upper_not_space: "isupper c \<Longrightarrow> \<not> isspace c"
  unfolding isupper_def isspace_def less_eq_char_def by simp

lemma isspace_not_cased: "isspace c \<Longrightarrow> lower_char c = c"
  using upper_not_space [of c] by (auto simp: lower_char_def)

lemma lower_char_letter_not_space:
  "lower_char c = CHR ''n'' \<or> lower_char c = CHR ''h'' \<Longrightarrow> \<not> isspace c"
  using isspace_not_cased [of c] by (auto simp: isspace_def)

lemma strip_id:
  assumes "s \<noteq> []" and "\<not> isspace (hd s)" and "\<not> isspace (last s)"
  shows "strip s = s"
proof -
  from assms have "dropWhile isspace s = s"
    by (cases s) simp_all
  moreover from assms have "dropWhile isspace (rev s) = rev s"
    by (cases "rev s") (simp_all add: last_rev [symmetric] hd_rev)
  ultimately show ?thesis
    by (simp add: strip_def)
qed

lemma lower_no_match_strip:
  assumes "lower s = ''no match''"
  shows "strip s = s"
proof -
  from assms have ne: "s \<noteq> []"
    by (auto simp: lower_def)
  from assms have "lower_char (hd s) = CHR ''n''"
    by (cases s) (simp_all add: lower_def)
  then have h: "\<not> isspace (hd s)"
    using lower_char_letter_not_space by blast
  from assms ne have "lower_char (last s) = last ''no match''"
    unfolding lower_def by (metis last_map)
  then have "lower_char (last s) = CHR ''h''"
    by simp
  then have l: "\<not> isspace (last s)"
    using lower_char_letter_not_space by blast
  show ?thesis
    using ne h l by (rule strip_id)
qed

lemma spec_member_d1: "spec_edu_member r \<Longrightarrow> kept_d1 r"
  by (auto simp: spec_edu_member_def kept_d1_def lower_no_match_strip split: option.splits)

lemma spec_member_md:
  "spec_edu_member r \<Longrightarrow>
     (case school_match r of None \<Rightarrow> False | Some s \<Rightarrow> strip s \<noteq> '''')"
  by (auto simp: spec_edu_member_def split: option.splits)

lemma spec_member_text: "spec_edu_member r \<Longrightarrow> \<exists>s. cell School_Match r = Some s"
  by (auto simp: spec_edu_member_def split: option.splits)


section \<open>Membership in the education subset\<close>

text \<open>
  Claim C1, as amended. The two scripts select the education subset by different rules.
  Where line 81 of \<^verbatim>\<open>my_dashboard1.py\<close> runs, that is, where the sheet is empty or its
  School Match column holds some text, the script keeps a row exactly when its School Match
  is empty (null) or its lower-cased, untrimmed text differs from \<^verbatim>\<open>no match\<close>. The
  second script keeps a row exactly when its School Match is present and non-empty after
  trimming. Every row that satisfies the unified rule of the specification is kept by both.
\<close>

theorem edu_subset_membership:
  "(object_dtype School_Match sales \<longrightarrow>
      edu_df_d1 sales =
        Inr (filter (\<lambda>r. case school_match r of None \<Rightarrow> True
                          | Some s \<Rightarrow> lower s \<noteq> ''no match'') sales))
   \<and> edu_df_md sales =
     filter (\<lambda>r. case school_match r of None \<Rightarrow> False | Some s \<Rightarrow> strip s \<noteq> '''') sales
   \<and> (r \<in> set sales \<and> spec_edu_member r \<longrightarrow>
        (\<exists>edu. edu_df_d1 sales = Inr edu \<and> r \<in> set edu) \<and> r \<in> set (edu_df_md sales))"
proof -
  have a: "object_dtype School_Match sales \<longrightarrow>
      edu_df_d1 sales =
        Inr (filter (\<lambda>r. case school_match r of None \<Rightarrow> True
                          | Some s \<Rightarrow> lower s \<noteq> ''no match'') sales)"
    using edu_df_d1_runs [of sales] by (simp add: kept_d1_def [abs_def])
  have c: "(\<exists>edu. edu_df_d1 sales = Inr edu \<and> r \<in> set edu) \<and> r \<in> set (edu_df_md sales)"
    if "r \<in> set sales \<and> spec_edu_member r"
  proof -
    from that spec_member_text obtain s where "cell School_Match r = Some s"
      by blast
    with that have "object_dtype School_Match sales"
      by (intro object_dtype_text [of r sales School_Match s]) simp_all
    then have "edu_df_d1 sales = Inr (filter kept_d1 sales)"
      by (rule edu_df_d1_runs)
    moreover from that have "r \<in> set (filter kept_d1 sales)"
      by (simp add: spec_member_d1)
    moreover from that have "r \<in> set (edu_df_md sales)"
      using spec_member_md [of r] by (simp add: edu_df_md_filter)
    ultimately show ?thesis
      by blast
  qed
  from a edu_df_md_filter [of sales] c show ?thesis
    by blast
qed

theorem edu_subset_membership_witness:
  "edu_df_d1 segment_table = Inr [segment_table ! 0, segment_table ! 1]
   \<and> spec_edu_member (segment_table ! 0)
   \<and> (\<exists>edu. edu_df_d1 segment_table = Inr edu \<and> segment_table ! 0 \<in> set edu)
   \<and> segment_table ! 0 \<in> set (edu_df_md segment_table)"
proof -
  note t = edu_subset_membership [of segment_table "segment_table ! 0"]
  have o: "object_dtype School_Match segment_table"
    by (simp add: pd_defs ex_defs)
  have f: "filter (\<lambda>r. case school_match r of None \<Rightarrow> True
                          | Some s \<Rightarrow> lower s \<noteq> ''no match'') segment_table =
           [segment_table ! 0, segment_table ! 1]"
    by (simp add: ex_defs str_defs)
  have a: "edu_df_d1 segment_table = Inr [segment_table ! 0, segment_table ! 1]"
    using mp [OF t [THEN conjunct1] o] unfolding f .
  have m: "segment_table ! 0 \<in> set segment_table \<and> spec_edu_member (segment_table ! 0)"
    by (simp add: spec_edu_member_def ex_defs str_defs)
  note c = mp [OF t [THEN conjunct2, THEN conjunct2] m]
  show ?thesis
    by (intro conjI a m [THEN conjunct2] c [THEN conjunct1] c [THEN conjunct2])
qed

text \<open>
  The unified rule is not the rule of either script: a sale without a School Match is in
  the subset of \<^verbatim>\<open>my_dashboard1.py\<close>, and a sale marked with the sentinel is in the
  subset of the second script.
\<close>

theorem edu_subset_unified_rule_counterexample:
  "edu_df_d1 segment_table = Inr [segment_table ! 0, segment_table ! 1]
   \<and> \<not> spec_edu_member (segment_table ! 1)
   \<and> edu_df_md segment_table = [segment_table ! 0, segment_table ! 2]
   \<and> \<not> spec_edu_member (segment_table ! 2)"
  by (simp add: edu_df_d1_def edu_df_md_def spec_edu_member_def pd_defs ex_defs str_defs)


section \<open>Sums that skip empty cells\<close>

lemma sum_skipna_Nil: "sum_skipna [] = 0"
  by (simp add: sum_skipna_def dropna_Nil)

lemma sum_skipna_Cons:
  "sum_skipna (c # cs) = (case c of None \<Rightarrow> 0 | Some v \<Rightarrow> v) + sum_skipna cs"
  by (simp add: sum_skipna_def dropna_Cons split: option.split)

lemma sum_skipna_append: "sum_skipna (xs @ ys) = sum_skipna xs + sum_skipna ys"
  by (simp add: sum_skipna_def dropna_append)

lemma sum_skipna_filter_le:
  assumes "\<forall>r\<in>set df. \<forall>v. f r = Some v \<longrightarrow> 0 \<le> v"
  shows "sum_skipna (map f (filter P df)) \<le> sum_skipna (map f df)"
  using assms
  by (induction df) (auto simp: sum_skipna_Cons sum_skipna_Nil split: option.splits)

lemma sum_list_le_abs: "sum_list xs \<le> sum_list (map abs (xs :: int list))"
  by (induction xs) auto

lemma nunique_card: "nunique s = card (set (dropna s))"
  by (simp add: nunique_def unique_def length_remdups_card_conv)

lemma nunique_insert:
  "nunique (xs @ Some v # ys) =
     (if Some v \<in> set (xs @ ys) then nunique (xs @ ys) else Suc (nunique (xs @ ys)))"
proof -
  have "set (dropna (xs @ Some v # ys)) = insert v (set (dropna (xs @ ys)))"
    by (auto simp: set_dropna)
  moreover have "v \<in> set (dropna (xs @ ys)) \<longleftrightarrow> Some v \<in> set (xs @ ys)"
    by (simp add: set_dropna)
  ultimately show ?thesis
    by (simp add: nunique_card insert_absorb del: set_append)
qed


section \<open>Repeat-order rate without schools\<close>

lemma groupby_no_keys: "nunique keys = 0 \<Longrightarrow> groupby keys vals = []"
  by (simp add: nunique_def groupby_def)

lemma repeat_count_no_schools: "schools_reached edu = 0 \<Longrightarrow> repeat_count edu = 0"
  by (simp add: schools_reached_def repeat_count_def repeat_orders_def groupby_nunique_def
      groupby_no_keys)

lemma repeat_order_rate_d1_guarded:
  "schools_reached edu = 0 \<Longrightarrow> repeat_order_rate_d1 edu = Fin 0"
  by (simp add: repeat_order_rate_d1_def)

lemma repeat_order_rate_md_unguarded:
  "schools_reached edu = 0 \<Longrightarrow> repeat_order_rate_md edu = NaN"
  by (simp add: repeat_order_rate_md_def repeat_count_no_schools np_divide_def)

text \<open>
  Claim C2. On a Sales table whose only sale matches no school, the second script counts
  zero schools reached, divides 0 by 0 and its rate is NaN. \<^verbatim>\<open>my_dashboard1.py\<close>
  guards the division: on a Sales table with a sale marked with the sentinel and a sale
  without a School Match it counts zero schools reached and reports the rate 0. On the
  sheet without rows both scripts count zero schools reached; the rate of
  \<^verbatim>\<open>my_dashboard1.py\<close> is 0 and that of the second script is NaN.
\<close>

theorem repeat_order_rate_no_schools:
  "map_sum id schools_reached (edu_df_d1 unmatched_table) = Inr 0
   \<and> map_sum id repeat_order_rate_d1 (edu_df_d1 unmatched_table) = Inr (Fin 0)
   \<and> schools_reached (edu_df_md no_school_table) = 0
   \<and> repeat_order_rate_md (edu_df_md no_school_table) = NaN
   \<and> map_sum id schools_reached (edu_df_d1 []) = Inr 0
   \<and> map_sum id repeat_order_rate_d1 (edu_df_d1 []) = Inr (Fin 0)
   \<and> schools_reached (edu_df_md []) = 0
   \<and> repeat_order_rate_md (edu_df_md []) = NaN"
proof -
  have e: "edu_df_d1 unmatched_table = Inr [unmatched_table ! 1]"
    by (simp add: edu_df_d1_def pd_defs ex_defs str_defs)
  have e0: "edu_df_d1 [] = Inr []" "edu_df_md [] = []"
    by (simp_all add: edu_df_d1_def edu_df_md_def pd_defs)
  have a: "schools_reached [unmatched_table ! 1] = 0"
    by (simp add: schools_reached_def pd_defs ex_defs)
  have b: "schools_reached (edu_df_md no_school_table) = 0"
    by (simp add: schools_reached_def edu_df_md_def pd_defs ex_defs)
  have c: "schools_reached [] = 0"
    by (simp add: schools_reached_def pd_defs)
  from a b c show ?thesis
    unfolding e e0 by (simp add: repeat_order_rate_d1_guarded repeat_order_rate_md_unguarded)
qed


section \<open>Trust-matched sales\<close>

lemma trust_mask_d1:
  "eq (str_lower (str_strip (astype_str (col Trust_Match df)))) ''trust'' = map is_trust df"
  by (simp add: eq_def str_lower_def str_strip_def astype_str_def col_def is_trust_def str_defs
      split: option.split)

lemma trust_mask_md:
  "eq (str_lower (str_strip (col Trust_Match df))) ''trust'' = map is_trust df"
  by (auto simp add: eq_def str_lower_def str_strip_def col_def is_trust_def
      split: option.split)

lemma count_is_trust_col:
  "length (filter is_trust df) =
     length (filter (\<lambda>c. case c of None \<Rightarrow> False | Some s \<Rightarrow> lower (strip s) = ''trust'')
               (col Trust_Match df))"
  by (induction df) (simp_all add: col_def is_trust_def)

lemma total_trust_matched_sales_runs:
  "object_dtype Trust_Match sales \<Longrightarrow>
     total_trust_matched_sales sales = Inr (length (filter is_trust (edu_df_md sales)))"
  by (simp add: total_trust_matched_sales_def str_accessor_def trust_mask_md getitem_map)

lemma total_trust_matched_sales_raises:
  "\<not> object_dtype Trust_Match sales \<Longrightarrow> total_trust_matched_sales sales = Inl AttributeError"
  by (simp add: total_trust_matched_sales_def str_accessor_def)

text \<open>
  Claim C3, as amended. A sale is trust-matched when its Trust Match, trimmed and
  lower-cased, is \<^verbatim>\<open>trust\<close>. \<^verbatim>\<open>my_dashboard1.py\<close> counts the trust-matched rows
  of the whole Sales table. Where line 100 of the second script runs, that is, where the
  sheet is empty or its Trust Match column holds some text, the second script counts the
  trust-matched rows of its education subset only. On a table whose Trust Match column is
  that of the example the first count is 3, and the second is 3 when the education subset
  has that column.
\<close>

theorem trust_matched_sales_count:
  "num_trust_purchases sales = length (filter is_trust sales)
   \<and> (object_dtype Trust_Match sales \<longrightarrow>
        total_trust_matched_sales sales = Inr (length (filter is_trust (edu_df_md sales))))
   \<and> (col Trust_Match sales = trust_column \<longrightarrow> num_trust_purchases sales = 3)
   \<and> (col Trust_Match (edu_df_md sales) = trust_column \<longrightarrow>
        total_trust_matched_sales sales = Inr 3)"
proof -
  have a: "num_trust_purchases sales = length (filter is_trust sales)"
    by (simp add: num_trust_purchases_def trust_purchases_def trust_mask_d1 getitem_map)
  have b: "object_dtype Trust_Match sales \<longrightarrow>
        total_trust_matched_sales sales = Inr (length (filter is_trust (edu_df_md sales)))"
    by (simp add: total_trust_matched_sales_runs)
  have c: "length (filter is_trust df) = 3" if "col Trust_Match df = trust_column" for df
    unfolding count_is_trust_col that
    by (simp add: trust_column_def str_defs)
  have d: "total_trust_matched_sales sales = Inr 3"
    if h: "col Trust_Match (edu_df_md sales) = trust_column"
  proof -
    from h have "dropna (col Trust_Match (edu_df_md sales)) \<noteq> []"
      by (simp add: trust_column_def dropna_Cons)
    then have "object_dtype Trust_Match sales"
      unfolding edu_df_md_filter by (rule object_dtype_subset)
    with c [OF h] show ?thesis
      by (simp add: total_trust_matched_sales_runs)
  qed
  from a b c d show ?thesis
    by simp
qed

theorem trust_matched_sales_count_witness:
  "object_dtype Trust_Match (trust_table (Some ''Oak Primary''))
   \<and> col Trust_Match (trust_table (Some ''Oak Primary'')) = trust_column
   \<and> col Trust_Match (edu_df_md (trust_table (Some ''Oak Primary''))) = trust_column
   \<and> num_trust_purchases (trust_table (Some ''Oak Primary'')) = 3
   \<and> total_trust_matched_sales (trust_table (Some ''Oak Primary'')) = Inr 3
   \<and> total_trust_matched_sales (trust_table (Some ''Oak Primary'')) =
       Inr (length (filter is_trust (edu_df_md (trust_table (Some ''Oak Primary'')))))"
proof -
  note t = trust_matched_sales_count [of "trust_table (Some ''Oak Primary'')"]
  have a: "col Trust_Match (trust_table (Some ''Oak Primary'')) = trust_column"
    by (simp add: col_def ex_defs)
  have o: "object_dtype Trust_Match (trust_table (Some ''Oak Primary''))"
    by (simp add: pd_defs ex_defs)
  have "edu_df_md (trust_table (Some ''Oak Primary'')) = trust_table (Some ''Oak Primary'')"
    by (simp add: edu_df_md_filter ex_defs str_defs)
  with a have b: "col Trust_Match (edu_df_md (trust_table (Some ''Oak Primary''))) = trust_column"
    by simp
  show ?thesis
    by (intro conjI o a b
        mp [OF t [THEN conjunct2, THEN conjunct2, THEN conjunct1] a]
        mp [OF t [THEN conjunct2, THEN conjunct2, THEN conjunct2] b]
        mp [OF t [THEN conjunct2, THEN conjunct1] o])
qed

text \<open>
  With the example column on sales that match no school, three rows of the Sales table
  are trust-matched and the count of the second script is 0.
\<close>

theorem trust_matched_sales_edu_only_counterexample:
  "col Trust_Match (trust_table None) = trust_column
   \<and> length (filter is_trust (trust_table None)) = 3
   \<and> total_trust_matched_sales (trust_table None) = Inr 0"
  by (simp add: total_trust_matched_sales_def edu_df_md_def is_trust_def pd_defs ex_defs
      str_defs)


section \<open>Education revenue and total revenue\<close>

text \<open>
  Claim C4, as amended. On every Sales table whose Item Totals are non-negative whole
  numbers (empty cells allowed) that add up to at most \<open>2 ^ 53\<close>, so that no sum of
  the code wraps around or is rounded, the education revenue of the second script is at
  most the total revenue, and so is that of \<^verbatim>\<open>my_dashboard1.py\<close> where its line 81
  runs.
\<close>

theorem edu_revenue_le_total_revenue:
  assumes "\<forall>r\<in>set sales. \<forall>v. item_total r = Some v \<longrightarrow> 0 \<le> v"
    and "exact_amounts sales"
  shows "(\<forall>edu. edu_df_d1 sales = Inr edu \<longrightarrow> edu_revenue edu \<le> total_revenue sales)
       \<and> edu_revenue (edu_df_md sales) \<le> total_revenue sales
       \<and> total_revenue sales \<le> 2 ^ 53"
proof -
  have a: "edu_revenue edu \<le> total_revenue sales" if "edu_df_d1 sales = Inr edu" for edu
    using edu_df_d1_Inr [OF that] assms(1)
    by (simp add: edu_revenue_def total_revenue_def sum_skipna_filter_le)
  have b: "edu_revenue (edu_df_md sales) \<le> total_revenue sales"
    using assms(1)
    by (simp add: edu_revenue_def total_revenue_def edu_df_md_filter sum_skipna_filter_le)
  have "sum_list (dropna (map item_total sales)) \<le> sum_list (map abs (dropna (map item_total sales)))"
    by (rule sum_list_le_abs)
  with assms(2) have c: "total_revenue sales \<le> 2 ^ 53"
    by (simp add: total_revenue_def sum_skipna_def exact_amounts_def)
  from a b c show ?thesis
    by blast
qed

theorem edu_revenue_le_total_revenue_witness:
  "exact_amounts segment_table
   \<and> edu_df_d1 segment_table = Inr [segment_table ! 0, segment_table ! 1]
   \<and> edu_revenue [segment_table ! 0, segment_table ! 1] = 150
   \<and> edu_revenue (edu_df_md segment_table) = 125
   \<and> total_revenue segment_table = 175
   \<and> edu_revenue [segment_table ! 0, segment_table ! 1] \<le> total_revenue segment_table
   \<and> edu_revenue (edu_df_md segment_table) \<le> total_revenue segment_table"
proof -
  have h: "\<forall>r\<in>set segment_table. \<forall>v. item_total r = Some v \<longrightarrow> 0 \<le> v"
    by (simp add: ex_defs)
  have x: "exact_amounts segment_table"
    by (simp add: exact_amounts_def pd_defs ex_defs)
  note t = edu_revenue_le_total_revenue [OF h x]
  have e: "edu_df_d1 segment_table = Inr [segment_table ! 0, segment_table ! 1]"
    by (simp add: edu_df_d1_def pd_defs ex_defs str_defs)
  have r1: "edu_revenue [segment_table ! 0, segment_table ! 1] = 150"
    by (simp add: edu_revenue_def pd_defs ex_defs)
  have r2: "edu_revenue (edu_df_md segment_table) = 125"
    by (simp add: edu_revenue_def edu_df_md_def pd_defs ex_defs str_defs)
  have r3: "total_revenue segment_table = 175"
    by (simp add: total_revenue_def pd_defs ex_defs)
  have l1: "edu_revenue [segment_table ! 0, segment_table ! 1] \<le> total_revenue segment_table"
    using t [THEN conjunct1] e by simp
  show ?thesis
    by (intro conjI x e r1 r2 r3 l1 t [THEN conjunct2, THEN conjunct1])
qed

text \<open>
  A refund outside the education subset lowers the total revenue below the education
  revenue.
\<close>

theorem edu_revenue_exceeds_total_counterexample:
  "total_revenue refund_table = 50
   \<and> map_sum id edu_revenue (edu_df_d1 refund_table) = Inr 100
   \<and> total_revenue refund_table_md = 50
   \<and> edu_revenue (edu_df_md refund_table_md) = 100
   \<and> \<not> edu_revenue (edu_df_md refund_table_md) \<le> total_revenue refund_table_md"
  by (simp add: total_revenue_def edu_revenue_def edu_df_d1_def edu_df_md_def pd_defs ex_defs
      str_defs)


section \<open>Blank School Match in the first script\<close>

lemma blank_kept_d1:
  assumes "school_match r = None \<or> (\<exists>s. school_match r = Some s \<and> strip s = '''')"
  shows "kept_d1 r"
proof (cases "school_match r")
  case None
  then show ?thesis
    by (simp add: kept_d1_def)
next
  case (Some s)
  with assms have e: "strip s = ''''"
    by simp
  have "lower s \<noteq> ''no match''"
  proof
    assume l: "lower s = ''no match''"
    then have "strip s = s"
      by (rule lower_no_match_strip)
    with e have "s = ''''"
      by simp
    with l show False
      by (simp add: lower_def)
  qed
  with Some show ?thesis
    by (simp add: kept_d1_def)
qed

text \<open>
  Claim C10. Line 81 of \<^verbatim>\<open>my_dashboard1.py\<close> uses \<^verbatim>\<open>.str\<close> without
  \<^verbatim>\<open>astype(str)\<close>: on a sheet with rows whose School Match column holds no text it
  raises, where line 85 of the second script, which converts first, gives the empty subset.
  Where the line runs, a sale whose School Match is empty (null) or consists of whitespace
  only is kept in the education subset, at its place among the other rows; its Item Total
  is part of the education revenue; and when the School Match is a blank string, that
  string is counted among the schools reached: the count is one higher than without the
  row, unless the same string is already counted.
\<close>

theorem blank_school_match_in_edu_d1:
  "edu_df_d1 no_school_table = Inl AttributeError
   \<and> edu_df_md no_school_table = []
   \<and> (object_dtype School_Match (xs @ r # ys)
        \<and> (school_match r = None \<or> (\<exists>s. school_match r = Some s \<and> strip s = ''''))
      \<longrightarrow> edu_df_d1 (xs @ r # ys) = Inr (filter kept_d1 xs @ r # filter kept_d1 ys)
        \<and> (exact_amounts (xs @ r # ys) \<longrightarrow>
             edu_revenue (filter kept_d1 xs @ r # filter kept_d1 ys) =
               edu_revenue (filter kept_d1 xs @ filter kept_d1 ys)
                 + (case item_total r of None \<Rightarrow> 0 | Some v \<Rightarrow> v))
        \<and> (\<forall>s. school_match r = Some s \<longrightarrow>
             schools_reached (filter kept_d1 xs @ r # filter kept_d1 ys) =
               (if Some s \<in> set (col School_Match (filter kept_d1 xs @ filter kept_d1 ys))
                then schools_reached (filter kept_d1 xs @ filter kept_d1 ys)
                else Suc (schools_reached (filter kept_d1 xs @ filter kept_d1 ys)))))"
proof -
  have n: "edu_df_d1 no_school_table = Inl AttributeError"
    by (simp add: edu_df_d1_def pd_defs ex_defs)
  have m: "edu_df_md no_school_table = []"
    by (simp add: edu_df_md_def pd_defs ex_defs)
  have g: "edu_df_d1 (xs @ r # ys) = Inr (filter kept_d1 xs @ r # filter kept_d1 ys)
        \<and> (exact_amounts (xs @ r # ys) \<longrightarrow>
             edu_revenue (filter kept_d1 xs @ r # filter kept_d1 ys) =
               edu_revenue (filter kept_d1 xs @ filter kept_d1 ys)
                 + (case item_total r of None \<Rightarrow> 0 | Some v \<Rightarrow> v))
        \<and> (\<forall>s. school_match r = Some s \<longrightarrow>
             schools_reached (filter kept_d1 xs @ r # filter kept_d1 ys) =
               (if Some s \<in> set (col School_Match (filter kept_d1 xs @ filter kept_d1 ys))
                then schools_reached (filter kept_d1 xs @ filter kept_d1 ys)
                else Suc (schools_reached (filter kept_d1 xs @ filter kept_d1 ys))))"
    if h: "object_dtype School_Match (xs @ r # ys)
        \<and> (school_match r = None \<or> (\<exists>s. school_match r = Some s \<and> strip s = ''''))"
  proof -
    from h have k: "kept_d1 r"
      by (intro blank_kept_d1) simp
    from h k have a: "edu_df_d1 (xs @ r # ys) = Inr (filter kept_d1 xs @ r # filter kept_d1 ys)"
      by (simp add: edu_df_d1_runs)
    have b: "edu_revenue (filter kept_d1 xs @ r # filter kept_d1 ys) =
               edu_revenue (filter kept_d1 xs @ filter kept_d1 ys)
                 + (case item_total r of None \<Rightarrow> 0 | Some v \<Rightarrow> v)"
      by (simp add: edu_revenue_def sum_skipna_append sum_skipna_Cons)
    have c: "schools_reached (filter kept_d1 xs @ r # filter kept_d1 ys) =
               (if Some s \<in> set (col School_Match (filter kept_d1 xs @ filter kept_d1 ys))
                then schools_reached (filter kept_d1 xs @ filter kept_d1 ys)
                else Suc (schools_reached (filter kept_d1 xs @ filter kept_d1 ys)))"
      if "school_match r = Some s" for s
      unfolding schools_reached_def
      using that
        nunique_insert [of "col School_Match (filter kept_d1 xs)" s
          "col School_Match (filter kept_d1 ys)"]
      by (simp add: col_def)
    from a b c show ?thesis
      by simp
  qed
  show ?thesis
    by (intro conjI n m) (rule impI, rule g)
qed

theorem blank_school_match_in_edu_d1_witness:
  "edu_df_d1 no_school_table = Inl AttributeError
   \<and> object_dtype School_Match blank_table
   \<and> exact_amounts blank_table
   \<and> school_match (blank_table ! 1) = None
   \<and> school_match (blank_table ! 2) = Some ''  ''
   \<and> strip ''  '' = ''''
   \<and> edu_df_d1 blank_table = Inr blank_table
   \<and> edu_revenue blank_table = edu_revenue [blank_table ! 0, blank_table ! 2] + 7
   \<and> edu_revenue blank_table = edu_revenue [blank_table ! 0, blank_table ! 1] + 5
   \<and> schools_reached blank_table = Suc (schools_reached [blank_table ! 0, blank_table ! 1])
   \<and> schools_reached blank_table = 2"
proof -
  let ?a = "blank_table ! 0" and ?b = "blank_table ! 1" and ?c = "blank_table ! 2"
  have bt: "blank_table = [?a] @ ?b # [?c]" "blank_table = [?a, ?b] @ ?c # []"
    by (simp_all add: ex_defs)
  have o: "object_dtype School_Match blank_table"
    by (simp add: pd_defs ex_defs)
  have x: "exact_amounts blank_table"
    by (simp add: exact_amounts_def pd_defs ex_defs)
  have sb: "school_match ?b = None"
    by (simp add: ex_defs)
  have sc: "school_match ?c = Some ''  ''"
    by (simp add: ex_defs)
  have st: "strip ''  '' = ''''"
    by (simp add: str_defs)
  have k: "filter kept_d1 [?a] = [?a]" "filter kept_d1 [?c] = [?c]"
    "filter kept_d1 [?a, ?b] = [?a, ?b]" "filter kept_d1 [] = []"
    by (simp_all add: kept_d1_def ex_defs str_defs)
  have hb: "object_dtype School_Match ([?a] @ ?b # [?c])
        \<and> (school_match ?b = None \<or> (\<exists>s. school_match ?b = Some s \<and> strip s = ''''))"
    using o sb unfolding bt(1) [symmetric] by simp
  have hc: "object_dtype School_Match ([?a, ?b] @ ?c # [])
        \<and> (school_match ?c = None \<or> (\<exists>s. school_match ?c = Some s \<and> strip s = ''''))"
    using o sc st unfolding bt(2) [symmetric] by simp
  note tb = mp [OF blank_school_match_in_edu_d1
      [of "[?a]" ?b "[?c]", THEN conjunct2, THEN conjunct2] hb, unfolded k]
  note tc = mp [OF blank_school_match_in_edu_d1
      [of "[?a, ?b]" ?c "[]", THEN conjunct2, THEN conjunct2] hc, unfolded k]
  have e: "edu_df_d1 blank_table = Inr blank_table"
    using tb [THEN conjunct1] unfolding bt(1) [symmetric] by simp
  have xb: "exact_amounts ([?a] @ ?b # [?c])" and xc: "exact_amounts ([?a, ?b] @ ?c # [])"
    using x unfolding bt(1) [symmetric] bt(2) [symmetric] by simp_all
  have r1: "edu_revenue blank_table = edu_revenue [?a, ?c] + 7"
    using mp [OF tb [THEN conjunct2, THEN conjunct1] xb] unfolding bt(1) [symmetric]
    by (simp add: ex_defs)
  have r2: "edu_revenue blank_table = edu_revenue [?a, ?b] + 5"
    using mp [OF tc [THEN conjunct2, THEN conjunct1] xc] unfolding bt(2) [symmetric]
    by (simp add: ex_defs)
  have ns: "Some ''  '' \<notin> set (col School_Match ([?a, ?b] @ []))"
    by (simp add: col_def ex_defs)
  have s1: "schools_reached blank_table = Suc (schools_reached [?a, ?b])"
    using tc [THEN conjunct2, THEN conjunct2, rule_format, OF sc] ns
    unfolding bt(2) [symmetric] by simp
  have "schools_reached [?a, ?b] = 1"
    by (simp add: schools_reached_def pd_defs ex_defs)
  with s1 have s2: "schools_reached blank_table = 2"
    by simp
  show ?thesis
    by (intro conjI blank_school_match_in_edu_d1 [of "[]" ?a "[]", THEN conjunct1]
        o x sb sc st e r1 r2 s1 s2)
qed


section \<open>The filter engine\<close>

lemma apply_filter_filter: "apply_filter cv df = filter (passes cv) df"
proof (cases "snd cv = ''All''")
  case True
  then show ?thesis
    by (simp add: apply_filter_def passes_def [abs_def])
next
  case False
  have "eq (col (fst cv) df) (snd cv) = map (\<lambda>r. cell (fst cv) r = Some (snd cv)) df"
    by (simp add: eq_def col_def)
  with False show ?thesis
    by (simp add: apply_filter_def passes_def [abs_def] getitem_map)
qed

lemma fold_apply_filter:
  "fold apply_filter cs df = filter (\<lambda>r. \<forall>cv\<in>set cs. passes cv r) df"
  by (induction cs arbitrary: df) (auto simp: apply_filter_filter intro: filter_cong)

lemma filtered_df_md_fold:
  "filtered_df_md rf sf tf tmf sales =
     fold apply_filter [(Region, rf), (School_Type, sf), (Type, tf), (Trust_Match, tmf)] sales"
  by (simp add: filtered_df_md_def)

lemma filtered_df_d1_fold:
  "filtered_df_d1 rf sf edu = fold apply_filter [(Region, rf), (School_Type, sf)] edu"
  by (simp add: filtered_df_d1_def)

lemma fold_apply_filter_set:
  "set cs = set cs' \<Longrightarrow> fold apply_filter cs df = fold apply_filter cs' df"
  by (simp add: fold_apply_filter)

lemma fold_apply_filter_absent:
  assumes "(c, v) \<in> set cs" and "v \<noteq> ''All''" and "Some v \<notin> set (col c df)"
  shows "fold apply_filter cs df = []"
proof -
  have "\<not> passes (c, v) r" if "r \<in> set df" for r
    using that assms(2,3) by (force simp: passes_def col_def)
  with assms(1) have "\<forall>r\<in>set df. \<not> (\<forall>cv\<in>set cs. passes cv r)"
    by blast
  then show ?thesis
    by (simp add: fold_apply_filter)
qed

text \<open>
  Claim C8. The filtered table of either script is the table of the rows that pass all
  selected constraints; applying the same constraints in any other order gives the same
  table; and when a constraint other than \<^verbatim>\<open>All\<close> selects a value that no row of
  the base table has in that column, the filtered table is empty and the filtered revenue
  and the number of sales are 0.
\<close>

theorem filter_engine_conjunction:
  "filtered_df_md rf sf tf tmf sales =
     filter (\<lambda>r. passes (Region, rf) r \<and> passes (School_Type, sf) r \<and> passes (Type, tf) r
               \<and> passes (Trust_Match, tmf) r) sales
   \<and> filtered_df_d1 rf sf edu =
     filter (\<lambda>r. passes (Region, rf) r \<and> passes (School_Type, sf) r) edu
   \<and> (set cs = {(Region, rf), (School_Type, sf), (Type, tf), (Trust_Match, tmf)} \<longrightarrow>
        fold apply_filter cs sales = filtered_df_md rf sf tf tmf sales)
   \<and> (set cs' = {(Region, rf), (School_Type, sf)} \<longrightarrow>
        fold apply_filter cs' edu = filtered_df_d1 rf sf edu)
   \<and> ((c, v) \<in> {(Region, rf), (School_Type, sf), (Type, tf), (Trust_Match, tmf)}
        \<and> v \<noteq> ''All'' \<and> Some v \<notin> set (col c sales) \<longrightarrow>
        filtered_df_md rf sf tf tmf sales = []
        \<and> filtered_sales_total (filtered_df_md rf sf tf tmf sales) = 0
        \<and> filtered_sales_count (filtered_df_md rf sf tf tmf sales) = 0)
   \<and> ((c, v) \<in> {(Region, rf), (School_Type, sf)}
        \<and> v \<noteq> ''All'' \<and> Some v \<notin> set (col c edu) \<longrightarrow>
        filtered_df_d1 rf sf edu = []
        \<and> filtered_sales_total (filtered_df_d1 rf sf edu) = 0)"
proof -
  have a: "filtered_df_md rf sf tf tmf sales =
     filter (\<lambda>r. passes (Region, rf) r \<and> passes (School_Type, sf) r \<and> passes (Type, tf) r
               \<and> passes (Trust_Match, tmf) r) sales"
    unfolding filtered_df_md_fold fold_apply_filter by (intro filter_cong) auto
  have b: "filtered_df_d1 rf sf edu =
     filter (\<lambda>r. passes (Region, rf) r \<and> passes (School_Type, sf) r) edu"
    unfolding filtered_df_d1_fold fold_apply_filter by (intro filter_cong) auto
  have c: "fold apply_filter cs sales = filtered_df_md rf sf tf tmf sales"
    if "set cs = {(Region, rf), (School_Type, sf), (Type, tf), (Trust_Match, tmf)}"
    unfolding filtered_df_md_fold using that by (intro fold_apply_filter_set) simp
  have d: "fold apply_filter cs' edu = filtered_df_d1 rf sf edu"
    if "set cs' = {(Region, rf), (School_Type, sf)}"
    unfolding filtered_df_d1_fold using that by (intro fold_apply_filter_set) simp
  have e: "filtered_df_md rf sf tf tmf sales = []"
    if "(c, v) \<in> {(Region, rf), (School_Type, sf), (Type, tf), (Trust_Match, tmf)}"
      and "v \<noteq> ''All''" and "Some v \<notin> set (col c sales)"
    unfolding filtered_df_md_fold
    using that by (intro fold_apply_filter_absent [of c v]) simp_all
  have f: "filtered_df_d1 rf sf edu = []"
    if "(c, v) \<in> {(Region, rf), (School_Type, sf)}"
      and "v \<noteq> ''All''" and "Some v \<notin> set (col c edu)"
    unfolding filtered_df_d1_fold
    using that by (intro fold_apply_filter_absent [of c v]) simp_all
  have z: "filtered_sales_total [] = 0" "filtered_sales_count [] = 0"
    by (simp_all add: filtered_sales_total_def filtered_sales_count_def sum_skipna_Nil)
  from a b c d e f z show ?thesis
    by presburger
qed

theorem filter_engine_conjunction_witness:
  "fold apply_filter
     [(Trust_Match, ''All''), (Type, ''All''), (School_Type, ''All''), (Region, ''London'')]
     scenario = filtered_df_md ''London'' ''All'' ''All'' ''All'' scenario
   \<and> filtered_df_md ''London'' ''All'' ''All'' ''All'' scenario = [scenario ! 1]
   \<and> fold apply_filter [(School_Type, ''All''), (Region, ''London'')] scenario =
       filtered_df_d1 ''London'' ''All'' scenario
   \<and> filtered_df_d1 ''London'' ''All'' scenario = [scenario ! 1]
   \<and> filtered_df_md ''Paris'' ''All'' ''All'' ''All'' scenario = []
   \<and> filtered_sales_total (filtered_df_md ''Paris'' ''All'' ''All'' ''All'' scenario) = 0
   \<and> filtered_sales_count (filtered_df_md ''Paris'' ''All'' ''All'' ''All'' scenario) = 0
   \<and> filtered_df_d1 ''Paris'' ''All'' scenario = []
   \<and> filtered_sales_total (filtered_df_d1 ''Paris'' ''All'' scenario) = 0"
proof -
  let ?cs = "[(Trust_Match, ''All''), (Type, ''All''), (School_Type, ''All''), (Region, ''London'')]"
  let ?cs' = "[(School_Type, ''All''), (Region, ''London'')]"
  note london = filter_engine_conjunction
    [where rf = "''London''" and sf = "''All''" and tf = "''All''" and tmf = "''All''"
       and sales = scenario and edu = scenario and cs = ?cs and cs' = ?cs']
  note paris = filter_engine_conjunction
    [where rf = "''Paris''" and sf = "''All''" and tf = "''All''" and tmf = "''All''"
       and sales = scenario and edu = scenario and c = Region and v = "''Paris''"]
  have s: "set ?cs = {(Region, ''London''), (School_Type, ''All''), (Type, ''All''),
                      (Trust_Match, ''All'')}"
    by auto
  have s': "set ?cs' = {(Region, ''London''), (School_Type, ''All'')}"
    by auto
  have a: "fold apply_filter ?cs scenario = filtered_df_md ''London'' ''All'' ''All'' ''All'' scenario"
    by (rule mp [OF london [THEN conjunct2, THEN conjunct2, THEN conjunct1] s])
  have a': "fold apply_filter ?cs' scenario = filtered_df_d1 ''London'' ''All'' scenario"
    by (rule mp [OF london [THEN conjunct2, THEN conjunct2, THEN conjunct2, THEN conjunct1] s'])
  have l: "filter (\<lambda>r. passes (Region, ''London'') r \<and> passes (School_Type, ''All'') r
                     \<and> passes (Type, ''All'') r \<and> passes (Trust_Match, ''All'') r) scenario =
           [scenario ! 1]"
    by (simp add: passes_def ex_defs)
  have l': "filter (\<lambda>r. passes (Region, ''London'') r \<and> passes (School_Type, ''All'') r)
              scenario = [scenario ! 1]"
    by (simp add: passes_def ex_defs)
  have b: "filtered_df_md ''London'' ''All'' ''All'' ''All'' scenario = [scenario ! 1]"
    using london [THEN conjunct1] unfolding l .
  have b': "filtered_df_d1 ''London'' ''All'' scenario = [scenario ! 1]"
    using london [THEN conjunct2, THEN conjunct1] unfolding l' .
  have n: "(Region, ''Paris'') \<in> {(Region, ''Paris''), (School_Type, ''All''), (Type, ''All''),
                                   (Trust_Match, ''All'')}
           \<and> ''Paris'' \<noteq> ''All'' \<and> Some ''Paris'' \<notin> set (col Region scenario)"
    by (simp add: col_def ex_defs)
  have n': "(Region, ''Paris'') \<in> {(Region, ''Paris''), (School_Type, ''All'')}
           \<and> ''Paris'' \<noteq> ''All'' \<and> Some ''Paris'' \<notin> set (col Region scenario)"
    by (simp add: col_def ex_defs)
  note c = mp [OF paris [THEN conjunct2, THEN conjunct2, THEN conjunct2, THEN conjunct2,
                         THEN conjunct1] n]
  note c' = mp [OF paris [THEN conjunct2, THEN conjunct2, THEN conjunct2, THEN conjunct2,
                          THEN conjunct2] n']
  show ?thesis
    by (intro conjI a b a' b' c [THEN conjunct1] c [THEN conjunct2, THEN conjunct1]
        c [THEN conjunct2, THEN conjunct2] c' [THEN conjunct1] c' [THEN conjunct2])
qed


section \<open>Assignments to the tables\<close>

lemma set_region_map:
  "set_region df (str_title (str_strip (astype_str (col Region df)))) =
     map (\<lambda>r. r\<lparr>region := Some (title (clean_text (region r)))\<rparr>) df"
  by (induction df)
     (simp_all add: set_region_def str_title_def str_strip_def astype_str_def col_def
        clean_text_def)

lemma load_d1_Inr:
  "load_d1 sales = Inr s0 \<Longrightarrow>
     edu_df_d1 sales = Inr (edu_df s0) \<and> sales_df s0 = sales \<and> region_clean s0 = None"
  by (auto simp: load_d1_def split: sum.splits)

lemma run_d1_load:
  "load_d1 sales = Inr s0 \<Longrightarrow> run_d1 sales = Inr (clean_region_d1 s0)"
  by (simp add: run_d1_def)

lemma load_d1_runs:
  "object_dtype School_Match sales \<Longrightarrow>
     load_d1 sales = Inr \<lparr>sales_df = sales, region_clean = None, edu_df = filter kept_d1 sales\<rparr>"
  by (simp add: load_d1_def edu_df_d1_runs)

text \<open>
  Claim C9, as amended. Both scripts assign to a table after it was produced. Where line
  81 of \<^verbatim>\<open>my_dashboard1.py\<close> has produced the education subset, line 167 rewrites
  the Region field of every row of the subset with its trimmed, title-cased text
  (\<^verbatim>\<open>Nan\<close> for an empty cell) and leaves the other fields, the Sales table and its
  columns as they were. The second script adds the column \<^verbatim>\<open>Region_clean\<close> to the
  Sales table and leaves the rows of the Sales table and the education subset as they were.
\<close>

theorem pipeline_assignments:
  "(\<forall>s0. load_d1 sales = Inr s0 \<longrightarrow>
        sales_df s0 = sales
        \<and> edu_df_d1 sales = Inr (edu_df s0)
        \<and> (\<exists>s1. run_d1 sales = Inr s1
              \<and> sales_df s1 = sales
              \<and> sales_columns s1 = sales_columns s0
              \<and> edu_df s1 =
                  map (\<lambda>r. r\<lparr>region := Some (title (clean_text (region r)))\<rparr>) (edu_df s0)))
   \<and> (object_dtype School_Match sales \<longrightarrow> (\<exists>s0. load_d1 sales = Inr s0))
   \<and> sales_df (run_md sales) = sales
   \<and> edu_df (run_md sales) = edu_df (load_md sales)
   \<and> sales_columns (load_md sales) = base_columns
   \<and> sales_columns (run_md sales) = base_columns @ [''Region_clean'']
   \<and> region_clean (run_md sales) = Some (map (\<lambda>r. Some (clean_text (region r))) sales)"
proof -
  have d1: "sales_df s0 = sales
        \<and> edu_df_d1 sales = Inr (edu_df s0)
        \<and> (\<exists>s1. run_d1 sales = Inr s1
              \<and> sales_df s1 = sales
              \<and> sales_columns s1 = sales_columns s0
              \<and> edu_df s1 =
                  map (\<lambda>r. r\<lparr>region := Some (title (clean_text (region r)))\<rparr>) (edu_df s0))"
    if l: "load_d1 sales = Inr s0" for s0
  proof -
    note f = load_d1_Inr [OF l]
    have "sales_df (clean_region_d1 s0) = sales"
      "sales_columns (clean_region_d1 s0) = sales_columns s0"
      "edu_df (clean_region_d1 s0) =
         map (\<lambda>r. r\<lparr>region := Some (title (clean_text (region r)))\<rparr>) (edu_df s0)"
      using f by (simp_all add: clean_region_d1_def set_region_map sales_columns_def)
    with run_d1_load [OF l] f show ?thesis
      by simp
  qed
  have ex: "object_dtype School_Match sales \<longrightarrow> (\<exists>s0. load_d1 sales = Inr s0)"
    by (simp add: load_d1_runs)
  have md: "sales_df (run_md sales) = sales"
    "edu_df (run_md sales) = edu_df (load_md sales)"
    "sales_columns (load_md sales) = base_columns"
    "sales_columns (run_md sales) = base_columns @ [''Region_clean'']"
    "region_clean (run_md sales) = Some (map (\<lambda>r. Some (clean_text (region r))) sales)"
    by (simp_all add: run_md_def clean_region_md_def load_md_def sales_columns_def
        str_strip_def astype_str_def col_def clean_text_def comp_def)
  show ?thesis
    by (intro conjI ex md) (rule allI, rule impI, rule d1)
qed

theorem pipeline_assignments_witness:
  "object_dtype School_Match scenario
   \<and> load_d1 scenario =
       Inr \<lparr>sales_df = scenario, region_clean = None, edu_df = [scenario ! 0, scenario ! 1]\<rparr>
   \<and> edu_df_d1 scenario = Inr [scenario ! 0, scenario ! 1]
   \<and> (\<exists>s1. run_d1 scenario = Inr s1
         \<and> sales_df s1 = scenario
         \<and> sales_columns s1 = base_columns
         \<and> map region (edu_df s1) = [Some ''London'', Some ''London''])"
proof -
  let ?s0 = "\<lparr>sales_df = scenario, region_clean = None, edu_df = [scenario ! 0, scenario ! 1]\<rparr>"
  note t = pipeline_assignments [of scenario]
  have o: "object_dtype School_Match scenario"
    by (simp add: pd_defs ex_defs)
  have l: "load_d1 scenario = Inr ?s0"
    by (simp add: load_d1_def edu_df_d1_def pd_defs ex_defs str_defs)
  note r = t [THEN conjunct1, rule_format, OF l]
  have e: "edu_df_d1 scenario = Inr [scenario ! 0, scenario ! 1]"
    using r [THEN conjunct2, THEN conjunct1] by simp
  from r [THEN conjunct2, THEN conjunct2] obtain s1 where s1: "run_d1 scenario = Inr s1"
    "sales_df s1 = scenario" "sales_columns s1 = sales_columns ?s0"
    "edu_df s1 =
       map (\<lambda>r. r\<lparr>region := Some (title (clean_text (region r)))\<rparr>) (edu_df ?s0)"
    by auto
  have c: "sales_columns s1 = base_columns"
    unfolding s1(3) by (simp add: sales_columns_def)
  have g: "map region (edu_df s1) = [Some ''London'', Some ''London'']"
    unfolding s1(4) by (simp add: clean_text_def ex_defs str_defs)
  from s1(1,2) c g have "\<exists>s1. run_d1 scenario = Inr s1
         \<and> sales_df s1 = scenario
         \<and> sales_columns s1 = base_columns
         \<and> map region (edu_df s1) = [Some ''London'', Some ''London'']"
    by (intro exI [of _ s1] conjI)
  with o l e show ?thesis
    by (intro conjI)
qed

text \<open>
  In the scenario of the specification the education subset of \<^verbatim>\<open>my_dashboard1.py\<close>
  changes after it was produced, and so do the columns of the Sales table of the second
  script.
\<close>

theorem pipeline_mutates_counterexample:
  "map_sum id (map region \<circ> edu_df) (load_d1 scenario) =
     Inr [Some '' london '', Some ''London'']
   \<and> map_sum id (map region \<circ> edu_df) (run_d1 scenario) = Inr [Some ''London'', Some ''London'']
   \<and> map_sum id edu_df (run_d1 scenario) \<noteq> map_sum id edu_df (load_d1 scenario)
   \<and> sales_columns (run_md scenario) \<noteq> sales_columns (load_md scenario)"
proof -
  have a: "map_sum id (map region \<circ> edu_df) (load_d1 scenario) =
     Inr [Some '' london '', Some ''London'']"
    by (simp add: load_d1_def edu_df_d1_def pd_defs ex_defs str_defs)
  have b: "map_sum id (map region \<circ> edu_df) (run_d1 scenario) =
     Inr [Some ''London'', Some ''London'']"
    by (simp add: run_d1_def clean_region_d1_def load_d1_def set_region_def edu_df_d1_def
        pd_defs ex_defs str_defs)
  have c: "map_sum id edu_df (run_d1 scenario) \<noteq> map_sum id edu_df (load_d1 scenario)"
  proof
    assume "map_sum id edu_df (run_d1 scenario) = map_sum id edu_df (load_d1 scenario)"
    then have "map_sum id (map region) (map_sum id edu_df (run_d1 scenario)) =
               map_sum id (map region) (map_sum id edu_df (load_d1 scenario))"
      by simp
    then have "map_sum id (map region \<circ> edu_df) (run_d1 scenario) =
               map_sum id (map region \<circ> edu_df) (load_d1 scenario)"
      by (simp add: sum.map_comp)
    with a b show False
      by simp
  qed
  have d: "sales_columns (run_md scenario) \<noteq> sales_columns (load_md scenario)"
    by (simp add: sales_columns_def run_md_def clean_region_md_def load_md_def)
  show ?thesis
    by (intro conjI a b c d)
qed


section \<open>Grouped sums and their ranking\<close>

lemma set_unique: "set (unique xs) = set xs"
  by (simp add: unique_def)

lemma distinct_unique: "distinct (unique xs)"
  by (simp add: unique_def)

lemma group_cells:
  "map snd (filter (\<lambda>p. fst p = Some k) (zip (map f df) (map g df))) =
     map g (filter (\<lambda>r. f r = Some k) df)"
  by (induction df) simp_all

lemma groupby_sum_table:
  "groupby_sum (map f df) (map g df) =
     map (\<lambda>k. (k, sum_skipna (map g (filter (\<lambda>r. f r = Some k) df))))
       (sort (unique (dropna (map f df))))"
  by (simp add: groupby_sum_def groupby_def group_cells)

lemma groupby_sum_keys: "map fst (groupby_sum keys vals) = sort (unique (dropna keys))"
  by (simp add: groupby_sum_def groupby_def comp_def split_def)

lemma length_groupby_sum: "length (groupby_sum keys vals) = nunique keys"
  by (simp add: groupby_sum_def groupby_def nunique_def)

lemma mset_sort_values_desc:
  "sorts_descending q \<Longrightarrow> mset (sort_values_desc q s) = mset s"
  by (simp add: sorts_descending_def sort_values_desc_def)

lemma set_sort_values_desc: "sorts_descending q \<Longrightarrow> set (sort_values_desc q s) = set s"
  using mset_sort_values_desc [of q s] by (auto dest: mset_eq_setD)

lemma length_sort_values_desc:
  "sorts_descending q \<Longrightarrow> length (sort_values_desc q s) = length s"
  using mset_sort_values_desc [of q s] by (auto dest: mset_eq_length)

lemma distinct_keys_sort_values_desc:
  assumes "sorts_descending q" and "distinct (map fst s)"
  shows "distinct (map fst (sort_values_desc q s))"
proof -
  have "mset (map fst (sort_values_desc q s)) = mset (map fst s)"
    using mset_sort_values_desc [OF assms(1), of s] by (metis mset_map)
  with assms(2) show ?thesis
    by (metis mset_eq_imp_distinct_iff)
qed

lemma descending_sort_values_desc: "sorts_descending q \<Longrightarrow> descending (sort_values_desc q s)"
  by (simp add: sorts_descending_def sort_values_desc_def)

lemma descending_insertion_desc: "descending (insertion_desc s)"
proof -
  have "sorted (map (\<lambda>p. - snd p) (insertion_desc s))"
    by (simp add: insertion_desc_def)
  then show ?thesis
    by (simp add: descending_def sorted_wrt_map)
qed

lemma sorts_descending_insertion: "sorts_descending insertion_desc"
  unfolding sorts_descending_def
  by (intro allI conjI descending_insertion_desc) (simp add: insertion_desc_def)

text \<open>
  A Series of pairwise different sums has one arrangement in descending order, so every
  sorting routine gives that of sorting by insertion.
\<close>

lemma sort_values_desc_distinct:
  assumes "sorts_descending q" and "distinct (map snd s)"
  shows "sort_values_desc q s = insertion_desc s"
proof -
  let ?f = "\<lambda>p :: string \<times> int. - snd p"
  let ?xs = "sort_values_desc q s" and ?ys = "insertion_desc s"
  have sx: "set ?xs = set s"
    by (rule set_sort_values_desc [OF assms(1)])
  have sy: "set ?ys = set s"
    by (simp add: insertion_desc_def)
  from assms(2) have ds: "distinct s" and inj: "inj_on snd (set s)"
    by (simp_all add: distinct_map)
  from inj have injf: "inj_on ?f (set s)"
    by (auto simp: inj_on_def)
  have dx: "distinct ?xs"
    using mset_sort_values_desc [OF assms(1), of s] ds by (metis mset_eq_imp_distinct_iff)
  have dy: "distinct ?ys"
    using ds by (simp add: insertion_desc_def)
  have "sorted (map ?f ?xs)"
    using descending_sort_values_desc [OF assms(1), of s]
    by (simp add: descending_def sorted_wrt_map)
  moreover have "sorted (map ?f ?ys)"
    by (simp add: insertion_desc_def)
  moreover have "distinct (map ?f ?xs)" and "distinct (map ?f ?ys)"
    using dx dy injf sx sy by (simp_all add: distinct_map)
  moreover have "inj_on ?f (set ?xs \<union> set ?ys)"
    using injf sx sy by simp
  ultimately show ?thesis
    using sx sy by (intro map_sorted_distinct_set_unique [of ?f]) simp_all
qed

text \<open>The sums of a table grouped by a key, in descending order.\<close>

lemma ranking_facts:
  fixes f :: "row \<Rightarrow> string option" and g :: "row \<Rightarrow> int option" and df :: "row list"
  assumes q: "sorts_descending q"
  defines "s \<equiv> sort_values_desc q (groupby_sum (map f df) (map g df))"
  shows "set (map fst s) = {k. Some k \<in> f ` set df}"
    and "distinct (map fst s)"
    and "\<forall>(k, v)\<in>set s. v = sum_skipna (map g (filter (\<lambda>r. f r = Some k) df))"
    and "descending s"
proof -
  let ?ks = "sort (unique (dropna (map f df)))"
  let ?h = "\<lambda>k. sum_skipna (map g (filter (\<lambda>r. f r = Some k) df))"
  have gs: "groupby_sum (map f df) (map g df) = map (\<lambda>k. (k, ?h k)) ?ks"
    by (rule groupby_sum_table)
  have "set (map fst s) = set ?ks"
    by (simp add: s_def gs set_sort_values_desc [OF q] image_image)
  also have "\<dots> = {k. Some k \<in> f ` set df}"
    by (simp add: set_unique set_dropna)
  finally show "set (map fst s) = {k. Some k \<in> f ` set df}" .
  have "map fst (map (\<lambda>k. (k, ?h k)) ?ks) = ?ks"
    by (simp add: comp_def)
  then have "distinct (map fst (map (\<lambda>k. (k, ?h k)) ?ks))"
    by (simp only: distinct_sort distinct_unique)
  then show "distinct (map fst s)"
    unfolding s_def gs by (rule distinct_keys_sort_values_desc [OF q])
  show "\<forall>(k, v)\<in>set s. v = ?h k"
    by (auto simp: s_def gs set_sort_values_desc [OF q])
  show "descending s"
    unfolding s_def by (rule descending_sort_values_desc [OF q])
qed


section \<open>Regional revenue\<close>

lemma region_sales_all_run_md:
  "region_sales_all q (run_md sales) =
     Inr (sort_values_desc q
            (groupby_sum (map (\<lambda>r. Some (clean_text (region r))) sales) (map item_total sales)))"
  by (simp add: region_sales_all_def run_md_def clean_region_md_def load_md_def str_strip_def
      astype_str_def col_def clean_text_def comp_def)

lemma getitem_map2: "getitem (map u df) (map p df) = map u (filter p df)"
  by (induction df) (simp_all add: getitem_def)

lemma edu_df_clean_region_d1:
  "edu_df (clean_region_d1 s0) = map (\<lambda>r. r\<lparr>region := Some (region_key_d1 r)\<rparr>) (edu_df s0)"
  by (simp add: clean_region_d1_def set_region_map region_key_d1_def)

lemma valid_regions_df_clean:
  "valid_regions_df (clean_region_d1 s0) =
     map (\<lambda>r. r\<lparr>region := Some (region_key_d1 r)\<rparr>) (filter valid_region (edu_df s0))"
proof -
  let ?upd = "\<lambda>r. r\<lparr>region := Some (region_key_d1 r)\<rparr>"
  have m: "mask_and (ne (col Region (map ?upd df)) [])
             (ne (str_lower (col Region (map ?upd df))) ''nan'') = map valid_region df" for df
    by (induction df)
       (simp_all add: mask_and_def ne_def str_lower_def col_def valid_region_def)
  show ?thesis
    by (simp only: valid_regions_df_def edu_df_clean_region_d1 m getitem_map2)
qed

lemma region_sales_clean:
  "region_sales q (clean_region_d1 s0) =
     sort_values_desc q
       (groupby_sum (map (\<lambda>r. Some (region_key_d1 r)) (filter valid_region (edu_df s0)))
          (map item_total (filter valid_region (edu_df s0))))"
  by (simp add: region_sales_def valid_regions_df_clean col_def comp_def)

lemma run_d1_edu:
  "edu_df_d1 sales = Inr edu \<Longrightarrow>
     run_d1 sales =
       Inr (clean_region_d1 \<lparr>sales_df = sales, region_clean = None, edu_df = edu\<rparr>)"
  by (simp add: run_d1_def load_d1_def)

text \<open>
  Claim C6, as amended. The second script groups all sales by the trimmed Region text,
  without changing its case; an empty Region cell is the group \<^verbatim>\<open>nan\<close> and a blank
  one the group of the empty string. Each group has the sum of its Item Totals and the
  groups are in descending order of the sums. For the three-row example the groups are
  \<^verbatim>\<open>london\<close> with 100, \<^verbatim>\<open>London\<close> with 50 and \<^verbatim>\<open>Leeds\<close> with 25.
  \<^verbatim>\<open>my_dashboard1.py\<close>, where its line 81 has produced the education subset, groups
  the rows of that subset by the trimmed, title-cased Region and leaves out the rows whose
  cleaned Region is empty or \<^verbatim>\<open>nan\<close>; for the example it has the single group
  \<^verbatim>\<open>London\<close> with 150. This holds for every sorting routine.
\<close>

theorem regional_revenue_breakdown:
  assumes "sorts_descending q"
  shows "(\<exists>s. region_sales_all q (run_md sales) = Inr s
        \<and> set (map fst s) = (\<lambda>r. clean_text (region r)) ` set sales
        \<and> distinct (map fst s)
        \<and> (\<forall>(k, v)\<in>set s.
              v = sum_skipna (map item_total (filter (\<lambda>r. clean_text (region r) = k) sales)))
        \<and> descending s)
   \<and> region_sales_all q (run_md scenario) =
       Inr [(''london'', 100), (''London'', 50), (''Leeds'', 25)]
   \<and> (\<forall>edu. edu_df_d1 sales = Inr edu \<longrightarrow>
         (\<exists>st. run_d1 sales = Inr st
            \<and> set (map fst (region_sales q st)) = region_key_d1 ` {r \<in> set edu. valid_region r}
            \<and> distinct (map fst (region_sales q st))
            \<and> (\<forall>(k, v)\<in>set (region_sales q st).
                  v = sum_skipna (map item_total
                        (filter (\<lambda>r. valid_region r \<and> region_key_d1 r = k) edu)))
            \<and> descending (region_sales q st)))
   \<and> map_sum id (region_sales q) (run_d1 scenario) = Inr [(''London'', 150)]"
proof -
  note q = assms
  let ?f = "\<lambda>r. Some (clean_text (region r))"
  let ?s = "sort_values_desc q (groupby_sum (map ?f sales) (map item_total sales))"
  have "set (map fst ?s) = (\<lambda>r. clean_text (region r)) ` set sales"
    using ranking_facts(1) [OF q, where f = ?f and g = item_total and df = sales] by auto
  moreover have "distinct (map fst ?s)"
    by (rule ranking_facts(2) [OF q])
  moreover have "\<forall>(k, v)\<in>set ?s.
      v = sum_skipna (map item_total (filter (\<lambda>r. clean_text (region r) = k) sales))"
    using ranking_facts(3) [OF q, where f = ?f and g = item_total and df = sales] by simp
  moreover have "descending ?s"
    by (rule ranking_facts(4) [OF q])
  ultimately have md: "\<exists>s. region_sales_all q (run_md sales) = Inr s
        \<and> set (map fst s) = (\<lambda>r. clean_text (region r)) ` set sales
        \<and> distinct (map fst s)
        \<and> (\<forall>(k, v)\<in>set s.
              v = sum_skipna (map item_total (filter (\<lambda>r. clean_text (region r) = k) sales)))
        \<and> descending s"
    unfolding region_sales_all_run_md by blast
  have g1: "groupby_sum (map (\<lambda>r. Some (clean_text (region r))) scenario)
              (map item_total scenario) = [(''Leeds'', 25), (''London'', 50), (''london'', 100)]"
    by (simp add: clean_text_def pd_defs ex_defs str_defs)
  have md_ex: "region_sales_all q (run_md scenario) =
       Inr [(''london'', 100), (''London'', 50), (''Leeds'', 25)]"
    unfolding region_sales_all_run_md g1
    by (simp add: sort_values_desc_distinct [OF q]) (simp add: insertion_desc_def)
  have d1: "\<exists>st. run_d1 sales = Inr st
            \<and> set (map fst (region_sales q st)) = region_key_d1 ` {r \<in> set edu. valid_region r}
            \<and> distinct (map fst (region_sales q st))
            \<and> (\<forall>(k, v)\<in>set (region_sales q st).
                  v = sum_skipna (map item_total
                        (filter (\<lambda>r. valid_region r \<and> region_key_d1 r = k) edu)))
            \<and> descending (region_sales q st)"
    if e: "edu_df_d1 sales = Inr edu" for edu
  proof -
    let ?g = "\<lambda>r. Some (region_key_d1 r)"
    let ?v = "filter valid_region edu"
    let ?st = "clean_region_d1 \<lparr>sales_df = sales, region_clean = None, edu_df = edu\<rparr>"
    have rs: "region_sales q ?st =
       sort_values_desc q (groupby_sum (map ?g ?v) (map item_total ?v))"
      by (simp add: region_sales_clean)
    have k: "set (map fst (region_sales q ?st)) = region_key_d1 ` {r \<in> set edu. valid_region r}"
      unfolding rs
      using ranking_facts(1) [OF q, where f = ?g and g = item_total and df = ?v] by auto
    have d: "distinct (map fst (region_sales q ?st))"
      unfolding rs by (rule ranking_facts(2) [OF q])
    have v: "\<forall>(k, v)\<in>set (region_sales q ?st).
         v = sum_skipna (map item_total
               (filter (\<lambda>r. valid_region r \<and> region_key_d1 r = k) edu))"
      unfolding rs
      using ranking_facts(3) [OF q, where f = ?g and g = item_total and df = ?v]
      by (simp add: conj_commute)
    have o: "descending (region_sales q ?st)"
      unfolding rs by (rule ranking_facts(4) [OF q])
    from run_d1_edu [OF e] k d v o show ?thesis
      by (intro exI [of _ ?st] conjI)
  qed
  have e_ex: "edu_df_d1 scenario = Inr [scenario ! 0, scenario ! 1]"
    by (simp add: edu_df_d1_def pd_defs ex_defs str_defs)
  have g2: "groupby_sum
              (map (\<lambda>r. Some (region_key_d1 r)) (filter valid_region [scenario ! 0, scenario ! 1]))
              (map item_total (filter valid_region [scenario ! 0, scenario ! 1])) =
            [(''London'', 150)]"
    by (simp add: valid_region_def region_key_d1_def clean_text_def pd_defs ex_defs str_defs)
  have "region_sales q
          (clean_region_d1
             \<lparr>sales_df = scenario, region_clean = None, edu_df = [scenario ! 0, scenario ! 1]\<rparr>) =
        sort_values_desc q [(''London'', 150)]"
    by (simp only: region_sales_clean state.select_convs g2)
  also have "\<dots> = [(''London'', 150)]"
    by (simp add: sort_values_desc_distinct [OF q] insertion_desc_def)
  finally have d1_ex: "map_sum id (region_sales q) (run_d1 scenario) = Inr [(''London'', 150)]"
    unfolding run_d1_edu [OF e_ex] by simp
  show ?thesis
    by (intro conjI md md_ex d1_ex) (rule allI, rule impI, rule d1)
qed


theorem regional_revenue_breakdown_witness:
  "sorts_descending insertion_desc
   \<and> region_sales_all insertion_desc (run_md scenario) =
       Inr [(''london'', 100), (''London'', 50), (''Leeds'', 25)]
   \<and> sum_skipna (map item_total (filter (\<lambda>r. clean_text (region r) = ''London'') scenario)) = 50
   \<and> edu_df_d1 scenario = Inr [scenario ! 0, scenario ! 1]
   \<and> map_sum id (region_sales insertion_desc) (run_d1 scenario) = Inr [(''London'', 150)]
   \<and> sum_skipna (map item_total
         (filter (\<lambda>r. valid_region r \<and> region_key_d1 r = ''London'')
            [scenario ! 0, scenario ! 1])) = 150"
proof -
  note t = regional_revenue_breakdown [OF sorts_descending_insertion, of scenario]
  note md_ex = t [THEN conjunct2, THEN conjunct1]
  note d1_ex = t [THEN conjunct2, THEN conjunct2, THEN conjunct2]
  have e: "edu_df_d1 scenario = Inr [scenario ! 0, scenario ! 1]"
    by (simp add: edu_df_d1_def pd_defs ex_defs str_defs)
  from t [THEN conjunct1] obtain s
    where s: "region_sales_all insertion_desc (run_md scenario) = Inr s"
    and sv: "\<forall>(k, v)\<in>set s.
              v = sum_skipna (map item_total (filter (\<lambda>r. clean_text (region r) = k) scenario))"
    by blast
  from s md_ex have "s = [(''london'', 100), (''London'', 50), (''Leeds'', 25)]"
    by simp
  then have "(''London'', 50) \<in> set s"
    by simp
  with sv have a:
    "sum_skipna (map item_total (filter (\<lambda>r. clean_text (region r) = ''London'') scenario)) = 50"
    by fastforce
  from t [THEN conjunct2, THEN conjunct2, THEN conjunct1, rule_format, OF e] obtain st
    where st: "run_d1 scenario = Inr st"
    and tv: "\<forall>(k, v)\<in>set (region_sales insertion_desc st).
                  v = sum_skipna (map item_total
                        (filter (\<lambda>r. valid_region r \<and> region_key_d1 r = k)
                           [scenario ! 0, scenario ! 1]))"
    by blast
  from st d1_ex have "region_sales insertion_desc st = [(''London'', 150)]"
    by simp
  then have "(''London'', 150) \<in> set (region_sales insertion_desc st)"
    by simp
  with tv have b: "sum_skipna (map item_total
         (filter (\<lambda>r. valid_region r \<and> region_key_d1 r = ''London'')
            [scenario ! 0, scenario ! 1])) = 150"
    by fastforce
  show ?thesis
    by (intro conjI sorts_descending_insertion md_ex a e d1_ex b)
qed

text \<open>
  In the example neither script has both a \<^verbatim>\<open>London\<close> group of 150 and a
  \<^verbatim>\<open>Leeds\<close> group of 25. The sums of the example differ from each other, so the
  sorting routine makes no difference.
\<close>

theorem regional_revenue_example_counterexample:
  "region_sales_all insertion_desc (run_md scenario) =
     Inr [(''london'', 100), (''London'', 50), (''Leeds'', 25)]
   \<and> (''London'', 150) \<notin> set (projr (region_sales_all insertion_desc (run_md scenario)))
   \<and> map_sum id (region_sales insertion_desc) (run_d1 scenario) = Inr [(''London'', 150)]
   \<and> (''Leeds'', 25) \<notin> set (projr (map_sum id (region_sales insertion_desc) (run_d1 scenario)))"
  by (simp add: region_sales_all_def run_md_def clean_region_md_def load_md_def
      region_sales_def valid_regions_df_def run_d1_def clean_region_d1_def
      load_d1_def edu_df_d1_def set_region_def pd_defs ex_defs str_defs)


section \<open>Top schools by revenue\<close>

lemma col_School_Match: "col School_Match df = map school_match df"
  by (simp add: col_def)

lemma descending_take: "descending s \<Longrightarrow> descending (take n s)"
  by (simp add: descending_def)

lemma descending_take_drop:
  assumes "descending s" and "x \<in> set (take n s)" and "y \<in> set (drop n s)"
  shows "snd y \<le> snd x"
proof -
  from assms(1) have "sorted_wrt (\<lambda>p q. snd q \<le> snd p) (take n s @ drop n s)"
    by (simp add: descending_def)
  with assms(2,3) show ?thesis
    unfolding sorted_wrt_append by blast
qed

text \<open>
  Claim C5, as amended. The table of top schools takes the education subset, drops the rows
  without a School Match, groups the others by School Match, sums Item Total per group,
  sorts the sums in descending order and keeps the first ten. The result is in descending
  order of revenue and has ten entries, or one per school when there are fewer than ten
  schools; each entry is a school with the sum of its Item Totals, no school is listed
  twice, and a school that is not listed has at most the revenue of each listed school. The
  order among schools of equal revenue is what the sorting routine makes of the groups,
  which come to it in ascending order of School Match; it is not the order of first
  appearance.
\<close>

theorem top_schools_ranking:
  assumes "sorts_descending q"
  shows "descending (top_schools q edu)
   \<and> length (top_schools q edu) = min 10 (schools_reached edu)
   \<and> distinct (map fst (top_schools q edu))
   \<and> (\<forall>(k, v)\<in>set (top_schools q edu).
         Some k \<in> set (col School_Match edu)
         \<and> v = sum_skipna (map item_total (filter (\<lambda>r. school_match r = Some k) edu)))
   \<and> (\<forall>k. Some k \<in> set (col School_Match edu) \<and> k \<notin> set (map fst (top_schools q edu)) \<longrightarrow>
         (\<forall>(k', v')\<in>set (top_schools q edu).
            sum_skipna (map item_total (filter (\<lambda>r. school_match r = Some k) edu)) \<le> v'))
   \<and> (schools_reached edu \<le> 10 \<longrightarrow>
         set (map fst (top_schools q edu)) = {k. Some k \<in> set (col School_Match edu)})"
proof -
  note q = assms
  let ?g = "groupby_sum (map school_match edu) (map item_total edu)"
  let ?s = "sort_values_desc q ?g"
  let ?h = "\<lambda>k. sum_skipna (map item_total (filter (\<lambda>r. school_match r = Some k) edu))"
  have t: "top_schools q edu = take 10 ?s"
    by (simp add: top_schools_def head_def col_School_Match)
  note rf = ranking_facts [OF q, where f = school_match and g = item_total and df = edu]
  have l: "length ?s = schools_reached edu"
    by (simp add: length_sort_values_desc [OF q] length_groupby_sum schools_reached_def
        col_School_Match)
  have a: "descending (top_schools q edu)"
    unfolding t by (intro descending_take rf(4))
  have b: "length (top_schools q edu) = min 10 (schools_reached edu)"
    unfolding t using l by (simp add: min_def)
  have c: "distinct (map fst (top_schools q edu))"
    unfolding t take_map [symmetric] by (intro distinct_take rf(2))
  have sub: "set (take 10 ?s) \<subseteq> set ?s"
    by (rule set_take_subset)
  with rf(1,3) have d: "\<forall>(k, v)\<in>set (top_schools q edu).
         Some k \<in> set (col School_Match edu) \<and> v = ?h k"
    unfolding t col_School_Match by force
  have e: "\<forall>(k', v')\<in>set (top_schools q edu). ?h k \<le> v'"
    if k: "Some k \<in> set (col School_Match edu) \<and> k \<notin> set (map fst (top_schools q edu))" for k
  proof -
    from k rf(1) have "k \<in> set (map fst ?s)"
      by (simp add: col_School_Match)
    then obtain v where kv: "(k, v) \<in> set ?s"
      by auto
    with rf(3) have v: "v = ?h k"
      by auto
    from k have "(k, v) \<notin> set (take 10 ?s)"
      unfolding t by force
    with kv have "(k, v) \<in> set (drop 10 ?s)"
      by (metis Un_iff append_take_drop_id set_append)
    with descending_take_drop [OF rf(4)] have "\<forall>x\<in>set (take 10 ?s). v \<le> snd x"
      by fastforce
    with v show ?thesis
      unfolding t by auto
  qed
  have f: "set (map fst (top_schools q edu)) = {k. Some k \<in> set (col School_Match edu)}"
    if "schools_reached edu \<le> 10"
    unfolding t using that l rf(1) by (simp add: col_School_Match)
  show ?thesis
    by (intro conjI a b c d) (use e f in blast)+
qed

theorem top_schools_ranking_witness:
  "sorts_descending insertion_desc
   \<and> schools_reached twelve_schools = 12
   \<and> top_schools insertion_desc twelve_schools =
       [(''Ash'', 120), (''Birch'', 110), (''Cedar'', 100), (''Dale'', 100), (''Elm'', 90),
        (''Fir'', 80), (''Gorse'', 70), (''Hazel'', 60), (''Ivy'', 50), (''Juniper'', 40)]
   \<and> descending (top_schools insertion_desc twelve_schools)
   \<and> length (top_schools insertion_desc twelve_schools) = 10
   \<and> sum_skipna (map item_total (filter (\<lambda>r. school_match r = Some ''Kapok'') twelve_schools))
       \<le> 40
   \<and> schools_reached tie_table = 2
   \<and> set (map fst (top_schools insertion_desc tie_table)) = {''Ash School'', ''Birch School''}"
proof -
  note t = top_schools_ranking [OF sorts_descending_insertion, of twelve_schools]
  note u = top_schools_ranking [OF sorts_descending_insertion, of tie_table]
  have g: "groupby_sum (col School_Match twelve_schools) (map item_total twelve_schools) =
       [(''Ash'', 120), (''Birch'', 110), (''Cedar'', 100), (''Dale'', 100), (''Elm'', 90),
        (''Fir'', 80), (''Gorse'', 70), (''Hazel'', 60), (''Ivy'', 50), (''Juniper'', 40),
        (''Kapok'', 30), (''Larch'', 20)]"
    by (simp add: twelve_schools_def sale_def pd_defs ex_defs)
  have v: "top_schools insertion_desc twelve_schools =
       [(''Ash'', 120), (''Birch'', 110), (''Cedar'', 100), (''Dale'', 100), (''Elm'', 90),
        (''Fir'', 80), (''Gorse'', 70), (''Hazel'', 60), (''Ivy'', 50), (''Juniper'', 40)]"
    unfolding top_schools_def g by (simp add: sort_values_desc_def insertion_desc_def head_def)
  have n: "schools_reached twelve_schools = 12"
    using length_groupby_sum [of "col School_Match twelve_schools" "map item_total twelve_schools"]
    unfolding g schools_reached_def by simp
  have len: "length (top_schools insertion_desc twelve_schools) = 10"
    using t [THEN conjunct2, THEN conjunct1] unfolding n by simp
  have k: "Some ''Kapok'' \<in> set (col School_Match twelve_schools)
      \<and> ''Kapok'' \<notin> set (map fst (top_schools insertion_desc twelve_schools))"
    unfolding v by (simp add: twelve_schools_def sale_def col_def ex_defs)
  have "(''Juniper'', 40) \<in> set (top_schools insertion_desc twelve_schools)"
    unfolding v by simp
  with t [THEN conjunct2, THEN conjunct2, THEN conjunct2, THEN conjunct2, THEN conjunct1,
      rule_format, OF k]
  have dom: "sum_skipna (map item_total
        (filter (\<lambda>r. school_match r = Some ''Kapok'') twelve_schools)) \<le> 40"
    by fastforce
  have n2: "schools_reached tie_table = 2"
    by (simp add: schools_reached_def pd_defs ex_defs)
  have k2: "{k. Some k \<in> set (col School_Match tie_table)} = {''Ash School'', ''Birch School''}"
    by (auto simp add: col_def ex_defs)
  have "schools_reached tie_table \<le> 10"
    unfolding n2 by simp
  from mp [OF u [THEN conjunct2, THEN conjunct2, THEN conjunct2, THEN conjunct2,
                 THEN conjunct2] this]
  have s2: "set (map fst (top_schools insertion_desc tie_table)) =
      {''Ash School'', ''Birch School''}"
    unfolding k2 .
  show ?thesis
    by (intro conjI sorts_descending_insertion n v t [THEN conjunct1] len dom n2 s2)
qed

text \<open>
  Two tables hold the same two schools with equal revenue, in opposite orders of first
  appearance. Their grouped sums are the same, so the table of top schools, which is
  computed from the grouped sums, is the same for both under every sorting routine and
  follows the order of first appearance in at most one of them. Sorting by insertion lists
  the schools in ascending order of their names.
\<close>

theorem top_schools_tie_order_counterexample:
  "edu_df_d1 tie_table = Inr tie_table
   \<and> edu_df_md tie_table = tie_table
   \<and> edu_df_d1 (rev tie_table) = Inr (rev tie_table)
   \<and> edu_df_md (rev tie_table) = rev tie_table
   \<and> unique (dropna (col School_Match tie_table)) = [''Birch School'', ''Ash School'']
   \<and> unique (dropna (col School_Match (rev tie_table))) = [''Ash School'', ''Birch School'']
   \<and> groupby_sum (col School_Match tie_table) (map item_total tie_table) =
       [(''Ash School'', 100), (''Birch School'', 100)]
   \<and> groupby_sum (col School_Match (rev tie_table)) (map item_total (rev tie_table)) =
       [(''Ash School'', 100), (''Birch School'', 100)]
   \<and> top_schools insertion_desc tie_table = [(''Ash School'', 100), (''Birch School'', 100)]
   \<and> top_schools insertion_desc (rev tie_table) =
       [(''Ash School'', 100), (''Birch School'', 100)]"
proof -
  have r: "rev tie_table = [tie_table ! 1, tie_table ! 0]"
    by (simp add: ex_defs)
  have d1: "edu_df_d1 tie_table = Inr tie_table"
    "edu_df_d1 [tie_table ! 1, tie_table ! 0] = Inr [tie_table ! 1, tie_table ! 0]"
    by (simp_all add: edu_df_d1_def pd_defs ex_defs str_defs)
  have md: "edu_df_md tie_table = tie_table"
    "edu_df_md [tie_table ! 1, tie_table ! 0] = [tie_table ! 1, tie_table ! 0]"
    by (simp_all add: edu_df_md_def pd_defs ex_defs str_defs)
  have u: "unique (dropna (col School_Match tie_table)) = [''Birch School'', ''Ash School'']"
    "unique (dropna (col School_Match [tie_table ! 1, tie_table ! 0])) =
       [''Ash School'', ''Birch School'']"
    by (simp_all add: pd_defs ex_defs)
  have g: "groupby_sum (col School_Match tie_table) (map item_total tie_table) =
       [(''Ash School'', 100), (''Birch School'', 100)]"
    "groupby_sum (col School_Match [tie_table ! 1, tie_table ! 0])
       (map item_total [tie_table ! 1, tie_table ! 0]) =
       [(''Ash School'', 100), (''Birch School'', 100)]"
    by (simp_all add: pd_defs ex_defs)
  have t: "top_schools insertion_desc tie_table =
       [(''Ash School'', 100), (''Birch School'', 100)]"
    "top_schools insertion_desc [tie_table ! 1, tie_table ! 0] =
       [(''Ash School'', 100), (''Birch School'', 100)]"
    unfolding top_schools_def g
    by (simp_all add: sort_values_desc_def insertion_desc_def head_def)
  show ?thesis
    unfolding r by (intro conjI d1 md u g t)
qed

section \<open>Monthly revenue\<close>

lemma fold_min_le: "x \<in> set (n # ns) \<Longrightarrow> fold min ns n \<le> (x::nat)"
  unfolding Min.set_eq_fold [symmetric] by (rule Min_le) simp_all

lemma fold_max_ge: "x \<in> set (n # ns) \<Longrightarrow> (x::nat) \<le> fold max ns n"
  unfolding Max.set_eq_fold [symmetric] by (rule Max_ge) simp_all

lemma month_ord_month_start: "month_ord (month_start k) = k"
  by (simp add: month_ord_def month_start_def)

lemma month_start_month_ord:
  assumes "1 \<le> month d" and "month d \<le> 12"
  shows "month_start (month_ord d) = d\<lparr>day := 1\<rparr>"
proof -
  from assms obtain m where m: "month d = Suc m" "m < 12"
    by (cases "month d") auto
  then have "(12 * year d + m) div 12 = year d" and "(12 * year d + m) mod 12 = m"
    by simp_all
  with m show ?thesis
    by (intro date.equality) (simp_all add: month_ord_def month_start_def)
qed

lemma sum_list_delta_upt:
  "lo \<le> n \<Longrightarrow> n < hi \<Longrightarrow>
     sum_list (map (\<lambda>k. if n = k then c else 0) [lo..<hi]) = (c::int)"
  by (simp add: interv_sum_list_conv_sum_set_nat)

lemma sum_buckets:
  assumes "\<forall>p\<in>set ps. \<forall>n. key p = Some n \<longrightarrow> lo \<le> n \<and> n < hi"
  shows "sum_list (map (\<lambda>k. sum_skipna (map snd (filter (\<lambda>p. key p = Some k) ps))) [lo..<hi]) =
         sum_skipna (map snd (filter (\<lambda>p. key p \<noteq> None) ps))"
  using assms
proof (induction ps)
  case Nil
  then show ?case
    by (simp add: sum_skipna_Nil)
next
  case (Cons p ps)
  then have ih: "sum_list (map (\<lambda>k. sum_skipna (map snd (filter (\<lambda>p. key p = Some k) ps))) [lo..<hi]) =
         sum_skipna (map snd (filter (\<lambda>p. key p \<noteq> None) ps))"
    by simp
  show ?case
  proof (cases "key p")
    case None
    with ih show ?thesis
      by simp
  next
    case (Some n)
    with Cons.prems have r: "lo \<le> n" "n < hi"
      by simp_all
    let ?c = "case snd p of None \<Rightarrow> 0 | Some v \<Rightarrow> v"
    have "sum_skipna (map snd (filter (\<lambda>p. key p = Some k) (p # ps))) =
          (if n = k then ?c else 0) + sum_skipna (map snd (filter (\<lambda>p. key p = Some k) ps))" for k
      using Some by (simp add: sum_skipna_Cons)
    then have "sum_list (map (\<lambda>k. sum_skipna (map snd (filter (\<lambda>p. key p = Some k) (p # ps)))) [lo..<hi]) =
          sum_list (map (\<lambda>k. if n = k then ?c else 0) [lo..<hi]) +
          sum_list (map (\<lambda>k. sum_skipna (map snd (filter (\<lambda>p. key p = Some k) ps))) [lo..<hi])"
      by (simp add: sum_list_addf)
    also have "\<dots> = ?c + sum_skipna (map snd (filter (\<lambda>p. key p \<noteq> None) ps))"
      using r ih by (simp add: sum_list_delta_upt)
    also have "\<dots> = sum_skipna (map snd (filter (\<lambda>p. key p \<noteq> None) (p # ps)))"
      using Some by (simp add: sum_skipna_Cons)
    finally show ?thesis .
  qed
qed

lemma zip_columns: "zip (map f df) (map g df) = map (\<lambda>r. (f r, g r)) df"
  by (induction df) simp_all

lemma bucket_table:
  "bucket (map order_date df) (map item_total df) k =
     sum_skipna (map item_total
       (filter (\<lambda>r. map_option month_ord (order_date r) = Some k) df))"
  by (simp add: bucket_def zip_columns filter_map comp_def)

lemma sum_skipna_split:
  "sum_skipna (map g df) =
     sum_skipna (map g (filter P df)) + sum_skipna (map g (filter (\<lambda>r. \<not> P r) df))"
  by (induction df) (simp_all add: sum_skipna_Nil sum_skipna_Cons)

lemma dropna_mem: "Some v \<in> set s \<Longrightarrow> v \<in> set (dropna s)"
  by (simp add: set_dropna)

lemma resample_series:
  assumes "resample_MS_sum (map order_date df) (map item_total df) = Inr s"
  shows "\<forall>(d, v)\<in>set s.
           v = sum_skipna (map item_total
                 (filter (\<lambda>r. map_option month_ord (order_date r) = Some (month_ord d)) df))"
    and "series_total s = sum_skipna (map item_total (filter (\<lambda>r. order_date r \<noteq> None) df))"
proof -
  let ?dates = "map order_date df" and ?vals = "map item_total df"
  let ?b = "\<lambda>k. sum_skipna (map item_total
       (filter (\<lambda>r. map_option month_ord (order_date r) = Some k) df))"
  show "\<forall>(d, v)\<in>set s.
           v = sum_skipna (map item_total
                 (filter (\<lambda>r. map_option month_ord (order_date r) = Some (month_ord d)) df))"
    using assms
    by (auto simp: resample_MS_sum_def bucket_table month_ord_month_start
        split: if_splits list.splits)
  show "series_total s = sum_skipna (map item_total (filter (\<lambda>r. order_date r \<noteq> None) df))"
  proof (cases "df = []")
    case True
    with assms show ?thesis
      by (simp add: resample_MS_sum_def series_total_def sum_skipna_Nil)
  next
    case False
    with assms obtain n ns where ms: "map month_ord (dropna ?dates) = n # ns"
      and s: "s = map (\<lambda>k. (month_start k, ?b k)) [fold min ns n ..< Suc (fold max ns n)]"
      by (auto simp: resample_MS_sum_def bucket_table split: list.splits)
    have rng: "fold min ns n \<le> month_ord d \<and> month_ord d < Suc (fold max ns n)"
      if "r \<in> set df" and "order_date r = Some d" for r d
    proof -
      from that have "d \<in> set (dropna ?dates)"
        by (intro dropna_mem) force
      then have "month_ord d \<in> set (n # ns)"
        unfolding ms [symmetric] by simp
      then show ?thesis
        using fold_min_le fold_max_ge by (simp add: less_Suc_eq_le)
    qed
    let ?key = "\<lambda>r. map_option month_ord (order_date r)"
    let ?ps = "map (\<lambda>r. (?key r, item_total r)) df"
    have "series_total s = sum_list (map ?b [fold min ns n ..< Suc (fold max ns n)])"
      by (simp add: s series_total_def comp_def)
    also have "\<dots> = sum_list (map (\<lambda>k. sum_skipna (map snd (filter (\<lambda>p. fst p = Some k) ?ps)))
                         [fold min ns n ..< Suc (fold max ns n)])"
      by (simp add: filter_map comp_def)
    also have "\<dots> = sum_skipna (map snd (filter (\<lambda>p. fst p \<noteq> None) ?ps))"
      by (rule sum_buckets) (use rng in auto)
    also have "\<dots> = sum_skipna (map item_total (filter (\<lambda>r. order_date r \<noteq> None) df))"
      by (simp add: filter_map comp_def)
    finally show ?thesis .
  qed
qed

lemma resample_returns:
  assumes "df = [] \<or> (\<exists>r\<in>set df. order_date r \<noteq> None)"
  shows "\<exists>s. resample_MS_sum (map order_date df) (map item_total df) = Inr s"
proof (cases "df = []")
  case True
  then show ?thesis
    by (simp add: resample_MS_sum_def)
next
  case False
  with assms obtain r d where "r \<in> set df" "order_date r = Some d"
    by auto
  then have "d \<in> set (dropna (map order_date df))"
    by (intro dropna_mem) force
  then have "map month_ord (dropna (map order_date df)) \<noteq> []"
    by auto
  with False show ?thesis
    by (auto simp: resample_MS_sum_def split: list.splits)
qed

lemma resample_raises:
  assumes "df \<noteq> []" and "\<forall>r\<in>set df. order_date r = None"
  shows "resample_MS_sum (map order_date df) (map item_total df) = Inl NaT_range"
proof -
  from assms(2) have "dropna (map order_date df) = []"
    by (induction df) (simp_all add: dropna_Nil dropna_Cons)
  with assms(1) show ?thesis
    by (simp add: resample_MS_sum_def)
qed

lemma monthly_series:
  assumes "resample_MS_sum (map order_date df) (map item_total df) = Inr s"
  shows "(\<forall>(d, v)\<in>set s.
            d = month_start (month_ord d)
            \<and> v = sum_skipna (map item_total
                   (filter (\<lambda>r. map_option month_ord (order_date r) = Some (month_ord d)) df)))
       \<and> series_total s = sum_skipna (map item_total (filter (\<lambda>r. order_date r \<noteq> None) df))
       \<and> sum_skipna (map item_total df) =
           series_total s + sum_skipna (map item_total (filter (\<lambda>r. order_date r = None) df))"
proof -
  have l: "\<forall>(d, v)\<in>set s. d = month_start (month_ord d)"
    using assms
    by (auto simp: resample_MS_sum_def month_ord_month_start split: if_splits list.splits)
  note r = resample_series [OF assms]
  have t: "sum_skipna (map item_total df) =
           series_total s + sum_skipna (map item_total (filter (\<lambda>r. order_date r = None) df))"
    unfolding r(2) using sum_skipna_split [of item_total df "\<lambda>r. order_date r \<noteq> None"]
    by simp
  from l r(1) have "\<forall>(d, v)\<in>set s.
            d = month_start (month_ord d)
            \<and> v = sum_skipna (map item_total
                   (filter (\<lambda>r. map_option month_ord (order_date r) = Some (month_ord d)) df))"
    by fast
  with r(2) t show ?thesis
    by (intro conjI)
qed

text \<open>
  Claim C7, as amended. On a table that is empty or has a dated row the monthly Series of
  all sales, and of education sales, is built: each of its entries is labelled with the
  first day of a month and holds the sum of the Item Totals of the rows dated in that month,
  and a row without an Order Date is in no bucket. Where the amounts are in the range of
  exact sums, the sum over the buckets is the sum over the dated rows and the revenue figure
  is that sum plus the Item Totals of the undated rows. On a table that has rows and no
  dated row among them the Series is not built: the script stops with an error. With a
  dated sale of 100 and an undated sale of 50 the buckets sum to 100 and the revenue is 150,
  for all sales and for the education sales of either script.
\<close>

theorem monthly_series_excludes_null_dates:
  "(monthly_sales df = Inr s \<longrightarrow>
      (\<forall>(d, v)\<in>set s.
          d = month_start (month_ord d)
          \<and> v = sum_skipna (map item_total
                 (filter (\<lambda>r. map_option month_ord (order_date r) = Some (month_ord d)) df)))
      \<and> (exact_amounts df \<longrightarrow>
          series_total s = sum_skipna (map item_total (filter (\<lambda>r. order_date r \<noteq> None) df))
          \<and> total_revenue df =
              series_total s
                + sum_skipna (map item_total (filter (\<lambda>r. order_date r = None) df))))
   \<and> (monthly_edu df = Inr s \<longrightarrow>
      (\<forall>(d, v)\<in>set s.
          d = month_start (month_ord d)
          \<and> v = sum_skipna (map item_total
                 (filter (\<lambda>r. map_option month_ord (order_date r) = Some (month_ord d)) df)))
      \<and> (exact_amounts df \<longrightarrow>
          series_total s = sum_skipna (map item_total (filter (\<lambda>r. order_date r \<noteq> None) df))
          \<and> edu_revenue df =
              series_total s
                + sum_skipna (map item_total (filter (\<lambda>r. order_date r = None) df))))
   \<and> (df = [] \<or> (\<exists>r\<in>set df. order_date r \<noteq> None) \<longrightarrow>
        (\<exists>s. monthly_sales df = Inr s) \<and> (\<exists>s. monthly_edu df = Inr s))
   \<and> (df \<noteq> [] \<and> (\<forall>r\<in>set df. order_date r = None) \<longrightarrow>
        monthly_sales df = Inl NaT_range \<and> monthly_edu df = Inl NaT_range)
   \<and> (1 \<le> month d \<and> month d \<le> 12 \<longrightarrow> month_start (month_ord d) = d\<lparr>day := 1\<rparr>)
   \<and> monthly_sales undated_table = Inr [(march, 100)]
   \<and> total_revenue undated_table = 150
   \<and> edu_df_d1 undated_table = Inr undated_table
   \<and> edu_df_md undated_table = undated_table
   \<and> monthly_edu undated_table = Inr [(march, 100)]
   \<and> edu_revenue undated_table = 150"
proof -
  have a: "monthly_sales df = Inr s \<longrightarrow>
      (\<forall>(d, v)\<in>set s.
          d = month_start (month_ord d)
          \<and> v = sum_skipna (map item_total
                 (filter (\<lambda>r. map_option month_ord (order_date r) = Some (month_ord d)) df)))
      \<and> (exact_amounts df \<longrightarrow>
          series_total s = sum_skipna (map item_total (filter (\<lambda>r. order_date r \<noteq> None) df))
          \<and> total_revenue df =
              series_total s
                + sum_skipna (map item_total (filter (\<lambda>r. order_date r = None) df)))"
    unfolding monthly_sales_def total_revenue_def
    using monthly_series [of df s] by (intro impI conjI) simp_all
  have b: "monthly_edu df = Inr s \<longrightarrow>
      (\<forall>(d, v)\<in>set s.
          d = month_start (month_ord d)
          \<and> v = sum_skipna (map item_total
                 (filter (\<lambda>r. map_option month_ord (order_date r) = Some (month_ord d)) df)))
      \<and> (exact_amounts df \<longrightarrow>
          series_total s = sum_skipna (map item_total (filter (\<lambda>r. order_date r \<noteq> None) df))
          \<and> edu_revenue df =
              series_total s
                + sum_skipna (map item_total (filter (\<lambda>r. order_date r = None) df)))"
    unfolding monthly_edu_def edu_revenue_def
    using monthly_series [of df s] by (intro impI conjI) simp_all
  have c: "df = [] \<or> (\<exists>r\<in>set df. order_date r \<noteq> None) \<longrightarrow>
        (\<exists>s. monthly_sales df = Inr s) \<and> (\<exists>s. monthly_edu df = Inr s)"
    unfolding monthly_sales_def monthly_edu_def by (intro impI conjI resample_returns)
  have r: "df \<noteq> [] \<and> (\<forall>r\<in>set df. order_date r = None) \<longrightarrow>
        monthly_sales df = Inl NaT_range \<and> monthly_edu df = Inl NaT_range"
    unfolding monthly_sales_def monthly_edu_def by (intro impI conjI resample_raises) simp_all
  have d: "1 \<le> month d \<and> month d \<le> 12 \<longrightarrow> month_start (month_ord d) = d\<lparr>day := 1\<rparr>"
    by (simp add: month_start_month_ord)
  have e1: "edu_df_d1 undated_table = Inr undated_table"
    by (simp add: edu_df_d1_def pd_defs ex_defs str_defs)
  have e2: "edu_df_md undated_table = undated_table"
    by (simp add: edu_df_md_def pd_defs ex_defs str_defs)
  have m: "resample_MS_sum (map order_date undated_table) (map item_total undated_table) =
             Inr [(march, 100)]"
    by (simp add: resample_MS_sum_def bucket_def month_ord_def month_start_def march_def
        pd_defs ex_defs)
  have t: "sum_skipna (map item_total undated_table) = 150"
    by (simp add: pd_defs ex_defs)
  show ?thesis
    by (intro conjI a b c r d e1 e2)
       (simp_all only: monthly_sales_def monthly_edu_def total_revenue_def edu_revenue_def m t)
qed

theorem monthly_series_excludes_null_dates_witness:
  "monthly_sales undated_table = Inr [(march, 100)]
   \<and> monthly_edu undated_table = Inr [(march, 100)]
   \<and> (\<exists>s. monthly_sales undated_table = Inr s)
   \<and> exact_amounts undated_table
   \<and> month_start (month_ord \<lparr>year = 2024, month = 3, day = 15\<rparr>) = march
   \<and> series_total [(march, 100)] = 100
   \<and> sum_skipna (map item_total (filter (\<lambda>r. order_date r = None) undated_table)) = 50
   \<and> total_revenue undated_table = 150
   \<and> edu_revenue undated_table = 150
   \<and> series_total [(march, 100)] < total_revenue undated_table
   \<and> monthly_sales undated_only_table = Inl NaT_range
   \<and> monthly_edu undated_only_table = Inl NaT_range"
proof -
  note t = monthly_series_excludes_null_dates
    [of undated_table "[(march, 100)]" "\<lparr>year = 2024, month = 3, day = 15\<rparr>"]
  note t' = monthly_series_excludes_null_dates [of undated_only_table "[]" march]
  note m = t [THEN conjunct2, THEN conjunct2, THEN conjunct2, THEN conjunct2, THEN conjunct2,
              THEN conjunct1]
  have m': "monthly_edu undated_table = Inr [(march, 100)]"
    using m by (simp add: monthly_edu_def monthly_sales_def)
  have x: "exact_amounts undated_table"
    by (simp add: exact_amounts_def pd_defs ex_defs)
  note r = mp [OF mp [OF t [THEN conjunct1] m, THEN conjunct2] x]
  note r' = mp [OF mp [OF t [THEN conjunct2, THEN conjunct1] m', THEN conjunct2] x]
  have h: "undated_table = [] \<or> (\<exists>r\<in>set undated_table. order_date r \<noteq> None)"
    by (simp add: ex_defs)
  note e = mp [OF t [THEN conjunct2, THEN conjunct2, THEN conjunct1] h, THEN conjunct1]
  have "1 \<le> month \<lparr>year = 2024, month = 3, day = 15\<rparr>
      \<and> month \<lparr>year = 2024, month = 3, day = 15\<rparr> \<le> 12"
    by simp
  from mp [OF t [THEN conjunct2, THEN conjunct2, THEN conjunct2, THEN conjunct2,
                 THEN conjunct1] this]
  have l: "month_start (month_ord \<lparr>year = 2024, month = 3, day = 15\<rparr>) = march"
    by (simp add: march_def)
  have s: "series_total [(march, 100)] = 100"
    by (simp add: series_total_def)
  have u: "sum_skipna (map item_total (filter (\<lambda>r. order_date r = None) undated_table)) = 50"
    by (simp add: pd_defs ex_defs)
  have v: "total_revenue undated_table = 150"
    using r [THEN conjunct2] unfolding s u by simp
  have v': "edu_revenue undated_table = 150"
    using r' [THEN conjunct2] unfolding s u by simp
  have w: "series_total [(march, 100)] < total_revenue undated_table"
    unfolding s v by simp
  have "undated_only_table \<noteq> [] \<and> (\<forall>r\<in>set undated_only_table. order_date r = None)"
    by (simp add: ex_defs)
  from mp [OF t' [THEN conjunct2, THEN conjunct2, THEN conjunct2, THEN conjunct1] this]
  have n: "monthly_sales undated_only_table = Inl NaT_range"
    and n': "monthly_edu undated_only_table = Inl NaT_range"
    by (rule conjunct1, rule conjunct2)
  show ?thesis
    by (intro conjI m m' e x l s u v v' w n n')
qed

text \<open>
  The workbook holds one sale, to a school, whose Order Date is empty. The sale is in the
  education subset of both scripts and counts 50 towards both revenue figures, but neither
  monthly Series is built: the resampling stops with an error, so there are no buckets whose
  sum could be compared with the revenue.
\<close>

theorem monthly_series_all_undated_counterexample:
  "edu_df_d1 undated_only_table = Inr undated_only_table
   \<and> edu_df_md undated_only_table = undated_only_table
   \<and> total_revenue undated_only_table = 50
   \<and> edu_revenue undated_only_table = 50
   \<and> monthly_sales undated_only_table = Inl NaT_range
   \<and> monthly_edu undated_only_table = Inl NaT_range"
proof -
  have e1: "edu_df_d1 undated_only_table = Inr undated_only_table"
    by (simp add: edu_df_d1_def pd_defs ex_defs str_defs)
  have e2: "edu_df_md undated_only_table = undated_only_table"
    by (simp add: edu_df_md_def pd_defs ex_defs str_defs)
  have t: "total_revenue undated_only_table = 50" "edu_revenue undated_only_table = 50"
    by (simp_all add: total_revenue_def edu_revenue_def pd_defs ex_defs)
  have m: "monthly_sales undated_only_table = Inl NaT_range"
    "monthly_edu undated_only_table = Inl NaT_range"
    by (simp_all add: monthly_sales_def monthly_edu_def resample_MS_sum_def pd_defs ex_defs)
  show ?thesis
    by (intro conjI e1 e2 t m)
qed

end
